theory Spec2Isabelle
  imports Main "HOL-Library.Option_ord" "HOL-Library.AList" "HOL-Library.Multiset"
begin

section \<open>Time and events\<close>

text \<open>
  A \<^verbatim>\<open>datetime\<close> is a point on the naive local clock, counted in microseconds (the
  resolution of Python's \<^verbatim>\<open>datetime\<close>) from midnight of 0001-01-01, the least date of Python.
  \<^verbatim>\<open>scheduler.parse_iso\<close> drops time-zone information on purpose, and every producer of
  events in the repository writes timestamps with \<^verbatim>\<open>datetime.isoformat()\<close>; an ISO string
  is therefore represented by the instant it denotes, and a key that is absent from a
  dictionary (or holds \<^verbatim>\<open>None\<close>) by \<open>None\<close>. For strings in \<^verbatim>\<open>isoformat()\<close> form the
  lexicographic order used by \<^verbatim>\<open>sorted(..., key=lambda e: e["start"])\<close> is the
  chronological order. A \<^verbatim>\<open>timedelta\<close> is a difference of two such integers.
\<close>

type_synonym datetime = int

abbreviation us_per_second :: int where "us_per_second \<equiv> 1000000"
abbreviation us_per_minute :: int where "us_per_minute \<equiv> 60000000"
abbreviation us_per_day :: int where "us_per_day \<equiv> 86400000000"

text \<open>
  An event is a Python dictionary. The keys the scheduling core reads are fields of the
  record (\<open>ev_type\<close> is the key \<^verbatim>\<open>"type"\<close>, \<open>ev_end\<close> the key \<^verbatim>\<open>"end"\<close>); every other key
  (\<^verbatim>\<open>_calendar_id\<close>, \<^verbatim>\<open>_calendar_htmlLink\<close>, \<^verbatim>\<open>day\<close>, ...) is a pass-through entry of
  \<open>extras\<close>, with its value (\<open>None\<close> for Python's \<^verbatim>\<open>None\<close>).
\<close>

record event =
  ev_name :: "string option"
  ev_type :: "string option"
  ev_start :: "datetime option"
  ev_end :: "datetime option"
  durationMinutes :: "int option"
  earliestStart :: "datetime option"
  latestEnd :: "datetime option"
  extras :: "(string \<times> string option) list"

text \<open>The dictionary \<^verbatim>\<open>{"start": ..., "end": ...}\<close> of a recommendation.\<close>

record recommendation =
  rec_start :: datetime
  rec_end :: datetime

section \<open>DialogueContext: \<^verbatim>\<open>context_manager.py\<close>\<close>

datatype ContextState = IDLE | AWAITING_CLARIFICATION | AWAITING_CONFLICT_RESOLUTION

record ContextManager =
  state :: ContextState
  last_transcript :: "string option"
  pending_event :: "event option"
  recommendation :: "recommendation option"
  last_interaction_time :: "datetime option"

text \<open>
  The dictionary \<^verbatim>\<open>get_context\<close> returns: either only the key \<^verbatim>\<open>"state"\<close>, or the state
  with the three payload attributes.
\<close>

datatype context_dict =
  StateOnly ContextState
| Full ContextState "string option" "event option" "recommendation option"

definition reset :: "ContextManager \<Rightarrow> ContextManager" where
  "reset self = self\<lparr>state := IDLE, last_transcript := None, pending_event := None,
     recommendation := None, last_interaction_time := None\<rparr>"

text \<open>
  \<^verbatim>\<open>is_expired\<close> reads the clock; the reading \<open>now\<close> is an argument. The comparison
  \<^verbatim>\<open>total_seconds() > timeout_seconds\<close> is a comparison of microsecond counts.
\<close>

definition is_expired :: "datetime \<Rightarrow> ContextManager \<Rightarrow> int \<Rightarrow> bool" where
  "is_expired now self timeout_seconds =
     (case last_interaction_time self of
        None \<Rightarrow> True
      | Some t \<Rightarrow> now - t > timeout_seconds * us_per_second)"

definition set_clarification_state :: "string \<Rightarrow> datetime \<Rightarrow> ContextManager \<Rightarrow> ContextManager" where
  "set_clarification_state original_transcript now self =
     self\<lparr>state := AWAITING_CLARIFICATION, last_transcript := Some original_transcript,
       last_interaction_time := Some now\<rparr>"

definition set_conflict_state ::
  "event \<Rightarrow> recommendation option \<Rightarrow> datetime \<Rightarrow> ContextManager \<Rightarrow> ContextManager" where
  "set_conflict_state pending rec now self =
     self\<lparr>state := AWAITING_CONFLICT_RESOLUTION, pending_event := Some pending,
       recommendation := rec, last_interaction_time := Some now\<rparr>"

text \<open>\<^verbatim>\<open>get_context\<close> returns the dictionary and the manager as the call leaves it.\<close>

definition get_context :: "datetime \<Rightarrow> ContextManager \<Rightarrow> context_dict \<times> ContextManager" where
  "get_context now self =
     (if is_expired now self 300
      then (StateOnly IDLE, if state self \<noteq> IDLE then reset self else self)
      else (Full (state self) (last_transcript self) (pending_event self) (recommendation self),
            self))"

text \<open>The manager \<^verbatim>\<open>__init__\<close> builds: every attribute as \<^verbatim>\<open>reset\<close> leaves it.\<close>

definition new_context :: ContextManager where
  "new_context = \<lparr>state = IDLE, last_transcript = None, pending_event = None,
     recommendation = None, last_interaction_time = None\<rparr>"

text \<open>
  For the worked examples below: the clock time \<open>h:m\<close> as microseconds since midnight,
  and events of the two kinds.
\<close>

definition hm :: "int \<Rightarrow> int \<Rightarrow> datetime" where
  "hm h m = (h * 60 + m) * us_per_minute"

definition fixed_event :: "string \<Rightarrow> datetime \<Rightarrow> datetime \<Rightarrow> event" where
  "fixed_event n s e = \<lparr>ev_name = Some n, ev_type = Some ''fixed'', ev_start = Some s,
     ev_end = Some e, durationMinutes = None, earliestStart = None, latestEnd = None,
     extras = []\<rparr>"

definition flexible_event :: "string \<Rightarrow> datetime \<Rightarrow> datetime \<Rightarrow> int \<Rightarrow> event" where
  "flexible_event n s e d = \<lparr>ev_name = Some n, ev_type = Some ''flexible'', ev_start = Some s,
     ev_end = Some e, durationMinutes = Some d, earliestStart = Some s, latestEnd = Some e,
     extras = []\<rparr>"

section \<open>ScheduleStore: \<^verbatim>\<open>schedule_manager.py\<close>\<close>

text \<open>
  Python exceptions that reach a caller are values of \<open>exn\<close>; a function that can raise
  returns \<open>exn + 'a\<close>. \<open>OSError\<close> stands for every failure of \<^verbatim>\<open>open\<close> other than
  \<^verbatim>\<open>FileNotFoundError\<close> (\<^verbatim>\<open>PermissionError\<close>, \<^verbatim>\<open>IsADirectoryError\<close>, a failing disk).
  An exception ends the request; what the files hold after it is not tracked.
\<close>

datatype exn = ValueError | KeyError | OSError | RuntimeError string

definition DAYS_OF_WEEK :: "string list" where
  "DAYS_OF_WEEK = [''monday'', ''tuesday'', ''wednesday'', ''thursday'', ''friday'',
     ''saturday'', ''sunday'']"

text \<open>\<^verbatim>\<open>str.lower\<close>, on ASCII letters.\<close>

definition lower_char :: "char \<Rightarrow> char" where
  "lower_char c =
     (case map_of (zip ''ABCDEFGHIJKLMNOPQRSTUVWXYZ'' ''abcdefghijklmnopqrstuvwxyz'') c of
        Some l \<Rightarrow> l
      | None \<Rightarrow> c)"

definition lower :: "string \<Rightarrow> string" where
  "lower s = map lower_char s"

record DaySchedule =
  day :: string
  events :: "event list"
  last_updated :: "datetime option"

text \<open>
  A date is a day number counted from 0001-01-01, which is a Monday, so
  \<^verbatim>\<open>date.weekday()\<close> is the day number modulo 7 and the date of a \<open>datetime\<close> is its
  quotient by the microseconds of a day. The ISO date string
  \<open>week_start_date\<close> is represented by the date it denotes, and a string that denotes no
  date (\<^verbatim>\<open>from_dict\<close>'s default \<^verbatim>\<open>""\<close>) by \<open>None\<close>.
\<close>

type_synonym date = int

record WeekMetadata =
  week_start_date :: "date option"
  last_reset :: "datetime option"
  last_modified :: "datetime option"

text \<open>
  What \<^verbatim>\<open>open(path, 'r')\<close> followed by \<^verbatim>\<open>json.load\<close> finds at a path: no file
  (\<^verbatim>\<open>FileNotFoundError\<close>), a file that cannot be opened (another \<^verbatim>\<open>OSError\<close>), text
  that is not JSON (\<^verbatim>\<open>JSONDecodeError\<close>), or a JSON object, represented by what
  \<^verbatim>\<open>from_dict\<close> makes of it.
\<close>

datatype 'a json_file = Missing | Unreadable | Corrupt | Content 'a

text \<open>
  The directory \<^verbatim>\<open>base_dir\<close>: the file \<^verbatim>\<open><day>/schedule.json\<close> of each day name and
  \<^verbatim>\<open>week_meta.json\<close>, and whether \<^verbatim>\<open>open(path, 'w')\<close> succeeds on each.
\<close>

record store =
  day_files :: "string \<Rightarrow> DaySchedule json_file"
  meta_file :: "WeekMetadata json_file"
  day_writable :: "string \<Rightarrow> bool"
  meta_writable :: bool

definition empty_schedule :: "string \<Rightarrow> DaySchedule" where
  "empty_schedule d = \<lparr>day = d, events = [], last_updated = None\<rparr>"

text \<open>
  Every function that reads the clock takes the reading \<open>now\<close> as an argument; one call
  reads one instant.
\<close>

definition get_current_week_start :: "datetime \<Rightarrow> date" where
  "get_current_week_start now =
     (let today = now div us_per_day;
          days_since_monday = today mod 7
      in today - days_since_monday)"

definition reset_week_metadata :: "datetime \<Rightarrow> store \<Rightarrow> exn + store" where
  "reset_week_metadata now self =
     (let meta = \<lparr>week_start_date = Some (get_current_week_start now),
                   last_reset = Some now, last_modified = Some now\<rparr>
      in if meta_writable self then Inr (self\<lparr>meta_file := Content meta\<rparr>) else Inl OSError)"

function get_week_metadata :: "datetime \<Rightarrow> store \<Rightarrow> exn + (WeekMetadata \<times> store)" where
  "get_week_metadata now self =
     (case meta_file self of
        Content m \<Rightarrow> Inr (m, self)
      | Unreadable \<Rightarrow> Inl OSError
      | _ \<Rightarrow>
          (case reset_week_metadata now self of
             Inl e \<Rightarrow> Inl e
           | Inr self' \<Rightarrow> get_week_metadata now self'))"
  by pat_completeness auto
termination
  by (relation "measure (\<lambda>(now, self).
        case meta_file self of Missing \<Rightarrow> 1 | Corrupt \<Rightarrow> 1 | _ \<Rightarrow> 0)")
     (auto simp: reset_week_metadata_def split: if_splits)

definition update_week_metadata :: "datetime \<Rightarrow> store \<Rightarrow> exn + store" where
  "update_week_metadata now self =
     (case get_week_metadata now self of
        Inl e \<Rightarrow> Inl e
      | Inr (meta, self') \<Rightarrow>
          if meta_writable self'
          then Inr (self'\<lparr>meta_file := Content (meta\<lparr>last_modified := Some now\<rparr>)\<rparr>)
          else Inl OSError)"




definition get_day_schedule :: "store \<Rightarrow> string \<Rightarrow> exn + DaySchedule" where
  "get_day_schedule self d =
     (let d = lower d
      in if d \<notin> set DAYS_OF_WEEK then Inl ValueError
         else (case day_files self d of
                 Content data \<Rightarrow> Inr data
               | Unreadable \<Rightarrow> Inl OSError
               | _ \<Rightarrow> Inr (empty_schedule d)))"

definition save_day_schedule :: "datetime \<Rightarrow> store \<Rightarrow> DaySchedule \<Rightarrow> exn + store" where
  "save_day_schedule now self schedule =
     (let d = lower (day schedule)
      in if d \<notin> set DAYS_OF_WEEK then Inl ValueError
         else if \<not> day_writable self d then Inl OSError
         else update_week_metadata now
                (self\<lparr>day_files :=
                   (day_files self)(d := Content (schedule\<lparr>last_updated := Some now\<rparr>))\<rparr>))"

text \<open>A store used in the worked examples: Monday holds one event, the other days have no file.\<close>

definition example_store :: store where
  "example_store =
     \<lparr>day_files = (\<lambda>d. if d = ''monday''
          then Content \<lparr>day = ''monday'',
                 events = [fixed_event ''Standup'' (738878 * us_per_day + hm 9 0)
                             (738878 * us_per_day + hm 9 30)],
                 last_updated = Some (738878 * us_per_day + hm 8 0)\<rparr>
          else Missing),
      meta_file = Content \<lparr>week_start_date = Some 738878,
                   last_reset = Some (738878 * us_per_day + hm 8 0),
                   last_modified = Some (738878 * us_per_day + hm 8 0)\<rparr>,
      day_writable = (\<lambda>d. True),
      meta_writable = True\<rparr>"

section \<open>ConflictResolver: \<^verbatim>\<open>scheduler.py\<close>\<close>

text \<open>
  \<^verbatim>\<open>check_time_overlap\<close>: a missing \<^verbatim>\<open>start\<close> or \<^verbatim>\<open>end\<close> key raises \<^verbatim>\<open>KeyError\<close>, which
  the function catches and answers with \<^verbatim>\<open>False\<close>.
\<close>

definition check_time_overlap :: "event \<Rightarrow> event \<Rightarrow> bool" where
  "check_time_overlap event1 event2 =
     (case (ev_start event1, ev_end event1, ev_start event2, ev_end event2) of
        (Some start1, Some end1, Some start2, Some end2) \<Rightarrow>
          \<not> (end1 \<le> start2 \<or> end2 \<le> start1)
      | _ \<Rightarrow> False)"

definition find_conflicts :: "event \<Rightarrow> event list \<Rightarrow> event list" where
  "find_conflicts new_event existing_events =
     filter (check_time_overlap new_event) existing_events"

text \<open>
  A conflict record: the dictionary with the keys \<^verbatim>\<open>new_event\<close>, \<^verbatim>\<open>existing_event\<close>,
  \<^verbatim>\<open>existing_type\<close> and \<^verbatim>\<open>recommendation\<close>.
\<close>

record conflict =
  cf_new_event :: event
  cf_existing_event :: event
  cf_existing_type :: string
  cf_recommendation :: "recommendation option"

text \<open>
  \<^verbatim>\<open>datetime.min\<close> is the epoch, and \<^verbatim>\<open>datetime.max\<close> the last microsecond of
  9999-12-31, which is day 3652058.
\<close>

abbreviation datetime_min :: datetime where "datetime_min \<equiv> 0"
abbreviation datetime_max :: datetime where "datetime_max \<equiv> 3652059 * us_per_day - 1"

text \<open>
  The recommendation of a conflict record: it starts where the existing event ends and
  lasts as long as the new event. The duration is computed in floating-point minutes,
  \<^verbatim>\<open>(end_dt - start_dt).total_seconds() / 60\<close>, and added back as
  \<^verbatim>\<open>timedelta(minutes=duration)\<close>. What this round trip through Python's floating-point
  arithmetic makes of a difference of so many microseconds is the parameter
  \<open>round_trip\<close>. The bare \<^verbatim>\<open>except\<close> around the computation gives \<^verbatim>\<open>None\<close> when a key is
  missing, and when the sum leaves the range of \<^verbatim>\<open>datetime\<close> (\<^verbatim>\<open>OverflowError\<close>).
\<close>

definition recommend :: "(int \<Rightarrow> int) \<Rightarrow> event \<Rightarrow> event \<Rightarrow> recommendation option" where
  "recommend round_trip new_event conflict_event =
     (case (ev_end conflict_event, ev_start new_event, ev_end new_event) of
        (Some conflict_end, Some start_dt, Some end_dt) \<Rightarrow>
          (let rec_start = conflict_end;
               duration = round_trip (end_dt - start_dt);
               rec_end = rec_start + duration
           in if datetime_min \<le> rec_end \<and> rec_end \<le> datetime_max
              then Some \<lparr>rec_start = rec_start, rec_end = rec_end\<rparr>
              else None)
      | _ \<Rightarrow> None)"

definition conflict_record :: "(int \<Rightarrow> int) \<Rightarrow> event \<Rightarrow> event \<Rightarrow> conflict" where
  "conflict_record round_trip new_event conflict_event =
     \<lparr>cf_new_event = new_event, cf_existing_event = conflict_event,
      cf_existing_type = (case ev_type conflict_event of None \<Rightarrow> ''fixed'' | Some t \<Rightarrow> t),
      cf_recommendation = recommend round_trip new_event conflict_event\<rparr>"

text \<open>
  The inner loop of \<^verbatim>\<open>detect_and_resolve_conflicts\<close> over \<^verbatim>\<open>current_conflicts\<close>, on
  the three lists it updates. \<^verbatim>\<open>list.remove\<close> deletes the first equal element, and the
  \<^verbatim>\<open>ValueError\<close> it raises when there is none is caught: that is \<open>remove1\<close>.
\<close>

fun resolve_current_conflicts ::
  "(int \<Rightarrow> int) \<Rightarrow> event \<Rightarrow> event list \<Rightarrow> event list \<Rightarrow> event list \<Rightarrow>
   conflict list \<Rightarrow> event list \<times> event list \<times> conflict list" where
  "resolve_current_conflicts round_trip new_event [] tentative_schedule events_to_add
     conflicts =
     (tentative_schedule, events_to_add, conflicts)"
| "resolve_current_conflicts round_trip new_event (conflict_event # rest) tentative_schedule
     events_to_add conflicts =
     (if ev_type new_event = Some ''fixed'' \<and> ev_type conflict_event = Some ''flexible''
      then resolve_current_conflicts round_trip new_event rest
             (remove1 conflict_event tentative_schedule) (events_to_add @ [conflict_event])
             conflicts
      else resolve_current_conflicts round_trip new_event rest tentative_schedule events_to_add
             (conflicts @ [conflict_record round_trip new_event conflict_event]))"

text \<open>
  One iteration of the outer loop. After the inner loop the new event is let through
  under the test \<^verbatim>\<open>if not conflicts\<close>, on the list of all conflicts of the batch so far.
\<close>

definition process_new_event ::
  "(int \<Rightarrow> int) \<Rightarrow> event \<Rightarrow> event list \<times> event list \<times> conflict list \<Rightarrow>
   event list \<times> event list \<times> conflict list" where
  "process_new_event round_trip new_event st =
     (case st of (tentative_schedule, events_to_add, conflicts) \<Rightarrow>
        if ev_type new_event = Some ''flexible''
        then (tentative_schedule @ [new_event], events_to_add @ [new_event], conflicts)
        else
          (let current_conflicts = find_conflicts new_event tentative_schedule
           in if current_conflicts \<noteq> []
              then
                (case resolve_current_conflicts round_trip new_event current_conflicts
                        tentative_schedule events_to_add conflicts of
                   (tentative_schedule', events_to_add', conflicts') \<Rightarrow>
                     if conflicts' = []
                     then (tentative_schedule' @ [new_event], events_to_add' @ [new_event],
                           conflicts')
                     else (tentative_schedule', events_to_add', conflicts'))
              else (tentative_schedule @ [new_event], events_to_add @ [new_event], conflicts)))"

fun detect_loop ::
  "(int \<Rightarrow> int) \<Rightarrow> event list \<Rightarrow> event list \<times> event list \<times> conflict list \<Rightarrow>
   event list \<times> event list \<times> conflict list" where
  "detect_loop round_trip [] st = st"
| "detect_loop round_trip (new_event # rest) st =
     detect_loop round_trip rest (process_new_event round_trip new_event st)"

definition detect_and_resolve_conflicts ::
  "(int \<Rightarrow> int) \<Rightarrow> event list \<Rightarrow> event list \<Rightarrow> datetime \<Rightarrow>
   event list \<times> conflict list" where
  "detect_and_resolve_conflicts round_trip existing_events new_events day_date =
     (case detect_loop round_trip new_events (existing_events, [], []) of
        (tentative_schedule, events_to_add, conflicts) \<Rightarrow> (events_to_add, conflicts))"

section \<open>Optimizer: \<^verbatim>\<open>scheduler.py\<close>\<close>

definition minutes_since_day_start :: "datetime \<Rightarrow> datetime \<Rightarrow> int" where
  "minutes_since_day_start dt day_start_dt = (dt - day_start_dt) div us_per_minute"

definition add_minutes_to_day_start :: "datetime \<Rightarrow> int \<Rightarrow> datetime" where
  "add_minutes_to_day_start day_start_dt minutes = day_start_dt + minutes * us_per_minute"

text \<open>
  \<^verbatim>\<open>int((end_dt - start_dt).total_seconds() / 60)\<close>: the whole minutes of a
  \<^verbatim>\<open>timedelta\<close>, rounded towards zero.
\<close>

definition whole_minutes :: "int \<Rightarrow> int" where
  "whole_minutes delta =
     (if 0 \<le> delta then delta div us_per_minute else - ((- delta) div us_per_minute))"

text \<open>
  Python dictionaries keep their keys in the order of first insertion; an assignment to
  a key that is present replaces the value in place. \<open>AList.update\<close> does both.
\<close>

definition dict_of :: "('k \<times> 'v) list \<Rightarrow> ('k \<times> 'v) list" where
  "dict_of kvs = foldl (\<lambda>d (k, v). AList.update k v d) [] kvs"

definition lookup :: "('k \<times> 'v) list \<Rightarrow> 'k \<Rightarrow> exn + 'v" where
  "lookup d k = (case map_of d k of None \<Rightarrow> Inl KeyError | Some v \<Rightarrow> Inr v)"

text \<open>A loop that computes one entry per element and stops at the first exception.\<close>

fun traverse :: "('a \<Rightarrow> exn + 'b) \<Rightarrow> 'a list \<Rightarrow> exn + 'b list" where
  "traverse f [] = Inr []"
| "traverse f (x # xs) =
     (case f x of
        Inl e \<Rightarrow> Inl e
      | Inr y \<Rightarrow> (case traverse f xs of Inl e \<Rightarrow> Inl e | Inr ys \<Rightarrow> Inr (y # ys)))"

text \<open>
  The CP-SAT model. A fixed event is an interval of fixed start and size (in minutes
  from the start of the day); a task has a start variable with domain
  \<open>[task_lb, task_ub]\<close>, a size and an end variable with domain
  \<open>[task_lb + task_size, task_end_ub]\<close> tied to the start by \<open>end = start + size\<close>.
  \<^verbatim>\<open>solve_schedule\<close> adds the no-overlap constraint over all intervals.
\<close>

record cp_task =
  task_lb :: int
  task_ub :: int
  task_size :: int
  task_end_ub :: int

record cp_model =
  fixed_intervals :: "(int \<times> int) list"
  task_vars :: "cp_task list"

text \<open>
  \<^verbatim>\<open>CpSolver\<close> belongs to the OR-Tools library, not to the repository: it is a parameter.
  A solver answers \<open>None\<close> when its status is neither \<^verbatim>\<open>OPTIMAL\<close> nor \<^verbatim>\<open>FEASIBLE\<close>, and
  otherwise the value of every start variable, by the position of its task.
\<close>

type_synonym solver = "cp_model \<Rightarrow> (nat \<Rightarrow> int) option"

datatype interval = FixedSizeInterval int int | IntervalVar nat

text \<open>
  The input of \<^verbatim>\<open>schedule_day\<close>: \<^verbatim>\<open>rules.dayStart\<close> and \<^verbatim>\<open>rules.dayEnd\<close> (a string
  \<^verbatim>\<open>HH:MM\<close>, represented by the microseconds since midnight), \<^verbatim>\<open>events\<close>, \<^verbatim>\<open>tasks\<close> and
  the optional \<^verbatim>\<open>date\<close>.
\<close>

record schedule_data =
  dayStart :: int
  dayEnd :: int
  data_events :: "event list"
  data_tasks :: "event list"
  data_date :: "datetime option"

record model_info =
  model :: cp_model
  intervals :: "(string \<times> interval) list"
  start_vars :: "(string \<times> nat) list"
  duration_map :: "(string \<times> int) list"
  fixed_starts :: "(string \<times> int) list"
  day_start_dt :: datetime
  day_end_minutes :: int
  event_map :: "(string \<times> event) list"

text \<open>
  The result dictionary of the scheduler functions: \<^verbatim>\<open>events\<close>, and the optional keys
  \<^verbatim>\<open>error\<close> and \<^verbatim>\<open>conflicts\<close>.
\<close>

record result =
  r_events :: "event list"
  r_error :: "string option"
  r_conflicts :: "conflict list option"

definition schedule_date_of :: "schedule_data \<Rightarrow> exn + date" where
  "schedule_date_of data =
     (case data_date data of
        Some d \<Rightarrow> Inr (d div us_per_day)
      | None \<Rightarrow>
          (case data_events data of
             first_event # _ \<Rightarrow>
               (case ev_start first_event of
                  None \<Rightarrow> Inl KeyError
                | Some first_event_dt \<Rightarrow> Inr (first_event_dt div us_per_day))
           | [] \<Rightarrow>
               (case data_tasks data of
                  first_task # _ \<Rightarrow>
                    (case earliestStart first_task of
                       Some first_task_start \<Rightarrow> Inr (first_task_start div us_per_day)
                     | None \<Rightarrow> Inl ValueError)
                | [] \<Rightarrow> Inl ValueError)))"

text \<open>The body of the loop over the fixed events: name, start minute, duration.\<close>

definition fixed_entry :: "datetime \<Rightarrow> event \<Rightarrow> exn + (string \<times> int \<times> int \<times> event)" where
  "fixed_entry day_start event =
     (case ev_name event of
        None \<Rightarrow> Inl KeyError
      | Some name \<Rightarrow>
          (case ev_start event of
             None \<Rightarrow> Inl KeyError
           | Some start_dt \<Rightarrow>
               (case ev_end event of
                  None \<Rightarrow> Inl KeyError
                | Some end_dt \<Rightarrow>
                    (let start_min = minutes_since_day_start start_dt day_start;
                         end_min = minutes_since_day_start end_dt day_start;
                         duration = end_min - start_min
                     in Inr (name, start_min, duration, event)))))"

definition impossible_window :: "string \<Rightarrow> string" where
  "impossible_window name =
     ''Task '' @ [CHR 0x27] @ name @ [CHR 0x27] @ '' has an impossible time window.''"

text \<open>The body of the loop over the flexible tasks: name, variables, duration.\<close>

definition task_entry ::
  "datetime \<Rightarrow> datetime \<Rightarrow> event \<Rightarrow> exn + (string \<times> cp_task \<times> event)" where
  "task_entry day_start day_end task =
     (case ev_name task of
        None \<Rightarrow> Inl KeyError
      | Some name \<Rightarrow>
          (case durationMinutes task of
             None \<Rightarrow> Inl KeyError
           | Some duration \<Rightarrow>
               (let earliest_dt = (case earliestStart task of Some t \<Rightarrow> t | None \<Rightarrow> day_start);
                    latest_dt = (case latestEnd task of Some t \<Rightarrow> t | None \<Rightarrow> day_end);
                    earliest_min = minutes_since_day_start earliest_dt day_start;
                    latest_min = minutes_since_day_start latest_dt day_start;
                    lb = earliest_min;
                    ub = latest_min - duration
                in if ub < lb then Inl (RuntimeError (impossible_window name))
                   else Inr (name,
                          \<lparr>task_lb = lb, task_ub = ub, task_size = duration,
                           task_end_ub = latest_min\<rparr>,
                          task))))"

definition build_schedule_model :: "schedule_data \<Rightarrow> exn + model_info" where
  "build_schedule_model data =
     (case schedule_date_of data of
        Inl e \<Rightarrow> Inl e
      | Inr schedule_date \<Rightarrow>
          (let day_start = schedule_date * us_per_day + dayStart data;
               day_end = schedule_date * us_per_day + dayEnd data
           in case traverse (fixed_entry day_start) (data_events data) of
                Inl e \<Rightarrow> Inl e
              | Inr fixed \<Rightarrow>
                  (case traverse (task_entry day_start day_end) (data_tasks data) of
                     Inl e \<Rightarrow> Inl e
                   | Inr tasks \<Rightarrow>
                       Inr \<lparr>model =
                              \<lparr>fixed_intervals = map (\<lambda>(name, start_min, duration, event).
                                   (start_min, duration)) fixed,
                               task_vars = map (\<lambda>(name, var, task). var) tasks\<rparr>,
                            intervals =
                              map (\<lambda>(name, start_min, duration, event).
                                   (name, FixedSizeInterval start_min duration)) fixed @
                              map (\<lambda>(i, name, var, task). (name, IntervalVar i))
                                (enumerate 0 tasks),
                            start_vars =
                              dict_of (map (\<lambda>(i, name, var, task). (name, i))
                                (enumerate 0 tasks)),
                            duration_map =
                              dict_of (map (\<lambda>(name, start_min, duration, event).
                                   (name, duration)) fixed @
                                 map (\<lambda>(name, var, task). (name, task_size var)) tasks),
                            fixed_starts =
                              dict_of (map (\<lambda>(name, start_min, duration, event).
                                   (name, start_min)) fixed),
                            day_start_dt = day_start,
                            day_end_minutes = (day_end - day_start) div us_per_minute,
                            event_map =
                              dict_of (map (\<lambda>(name, start_min, duration, event).
                                   (name, event)) fixed @
                                 map (\<lambda>(name, var, task). (name, task)) tasks)\<rparr>)))"

text \<open>The empty dictionary, the default of \<^verbatim>\<open>event_map.get(name, {})\<close>.\<close>

definition empty_event :: event where
  "empty_event = \<lparr>ev_name = None, ev_type = None, ev_start = None, ev_end = None,
     durationMinutes = None, earliestStart = None, latestEnd = None, extras = []\<rparr>"

definition placed_event ::
  "model_info \<Rightarrow> string \<Rightarrow> string \<Rightarrow> int \<Rightarrow> exn + event" where
  "placed_event model_info name kind start_min =
     (case lookup (duration_map model_info) name of
        Inl e \<Rightarrow> Inl e
      | Inr duration \<Rightarrow>
          (let end_min = start_min + duration;
               start_dt = add_minutes_to_day_start (day_start_dt model_info) start_min;
               end_dt = add_minutes_to_day_start (day_start_dt model_info) end_min;
               original_data = (case map_of (event_map model_info) name of
                                  Some e \<Rightarrow> e | None \<Rightarrow> empty_event)
           in Inr (original_data\<lparr>ev_name := Some name, ev_type := Some kind,
                     ev_start := Some start_dt, ev_end := Some end_dt\<rparr>)))"

definition fixed_out :: "model_info \<Rightarrow> string \<times> interval \<Rightarrow> exn + event" where
  "fixed_out model_info entry =
     (case entry of (name, interval) \<Rightarrow>
        (case lookup (fixed_starts model_info) name of
           Inl e \<Rightarrow> Inl e
         | Inr start_min \<Rightarrow> placed_event model_info name ''fixed'' start_min))"

definition task_out :: "model_info \<Rightarrow> (nat \<Rightarrow> int) \<Rightarrow> string \<times> nat \<Rightarrow> exn + event" where
  "task_out model_info solution entry =
     (case entry of (name, start_var) \<Rightarrow>
        placed_event model_info name ''flexible'' (solution start_var))"

definition solve_schedule :: "solver \<Rightarrow> model_info \<Rightarrow> exn + result" where
  "solve_schedule solve model_info =
     (case solve (model model_info) of
        None \<Rightarrow> Inl (RuntimeError ''No feasible schedule could be found.'')
      | Some solution \<Rightarrow>
          (case traverse (fixed_out model_info)
                  (filter (\<lambda>(name, interval). map_of (start_vars model_info) name = None)
                     (intervals model_info)) of
             Inl e \<Rightarrow> Inl e
           | Inr fixed_events \<Rightarrow>
               (case traverse (task_out model_info solution) (start_vars model_info) of
                  Inl e \<Rightarrow> Inl e
                | Inr tasks \<Rightarrow>
                    Inr \<lparr>r_events = sort_key ev_start (fixed_events @ tasks),
                         r_error = None, r_conflicts = None\<rparr>)))"

definition schedule_day :: "solver \<Rightarrow> schedule_data \<Rightarrow> exn + result" where
  "schedule_day solve data =
     (if data_events data = [] \<and> data_tasks data = []
      then Inr \<lparr>r_events = [], r_error = None, r_conflicts = None\<rparr>
      else (case build_schedule_model data of
              Inl e \<Rightarrow> Inl e
            | Inr model_info \<Rightarrow> solve_schedule solve model_info))"

text \<open>
  The first loop of \<^verbatim>\<open>optimize_day_events\<close>. A flexible event becomes a task whose
  duration is \<^verbatim>\<open>durationMinutes\<close> or, when that is missing or zero, the whole minutes
  between its start and end (60 when one of them is missing); every other event is kept
  as a fixed event, and must have a start and an end.
\<close>

definition span_minutes :: "event \<Rightarrow> int" where
  "span_minutes event =
     (case (ev_start event, ev_end event) of
        (Some start_dt, Some end_dt) \<Rightarrow> whole_minutes (end_dt - start_dt)
      | _ \<Rightarrow> 60)"

definition flexible_task :: "event \<Rightarrow> event" where
  "flexible_task event =
     (let duration = (case durationMinutes event of
                        Some d \<Rightarrow> if d \<noteq> 0 then d else span_minutes event
                      | None \<Rightarrow> span_minutes event)
      in event\<lparr>ev_type := Some ''flexible'', durationMinutes := Some duration,
           earliestStart := earliestStart event, latestEnd := latestEnd event\<rparr>)"

definition fixed_copy :: "event \<Rightarrow> exn + event" where
  "fixed_copy event =
     (case ev_start event of
        None \<Rightarrow> Inl KeyError
      | Some start_dt \<Rightarrow>
          (case ev_end event of
             None \<Rightarrow> Inl KeyError
           | Some end_dt \<Rightarrow>
               Inr (event\<lparr>ev_type := Some ''fixed'', ev_start := Some start_dt,
                      ev_end := Some end_dt\<rparr>)))"

fun separate_events :: "event list \<Rightarrow> exn + (event list \<times> event list)" where
  "separate_events [] = Inr ([], [])"
| "separate_events (event # rest) =
     (if ev_type event = Some ''flexible''
      then (case separate_events rest of
              Inl e \<Rightarrow> Inl e
            | Inr (fixed_events, flexible_tasks) \<Rightarrow>
                Inr (fixed_events, flexible_task event # flexible_tasks))
      else (case fixed_copy event of
              Inl e \<Rightarrow> Inl e
            | Inr fixed \<Rightarrow>
                (case separate_events rest of
                   Inl e \<Rightarrow> Inl e
                 | Inr (fixed_events, flexible_tasks) \<Rightarrow>
                     Inr (fixed # fixed_events, flexible_tasks))))"

text \<open>
  The scan over the fixed events sorted by start: an event that overlaps one already
  kept is turned into a task that has its name and duration and no other key.
\<close>

definition demoted :: "string \<Rightarrow> int \<Rightarrow> event" where
  "demoted name duration = \<lparr>ev_name = Some name, ev_type = Some ''flexible'', ev_start = None,
     ev_end = None, durationMinutes = Some duration, earliestStart = None, latestEnd = None,
     extras = []\<rparr>"

fun resolve_fixed ::
  "event list \<Rightarrow> event list \<Rightarrow> event list \<Rightarrow> exn + (event list \<times> event list)" where
  "resolve_fixed [] resolved_fixed flexible_tasks = Inr (resolved_fixed, flexible_tasks)"
| "resolve_fixed (event # rest) resolved_fixed flexible_tasks =
     (if find_conflicts event resolved_fixed \<noteq> []
      then (case ev_name event of
              None \<Rightarrow> Inl KeyError
            | Some name \<Rightarrow>
                resolve_fixed rest resolved_fixed
                  (flexible_tasks @ [demoted name (span_minutes event)]))
      else resolve_fixed rest (resolved_fixed @ [event]) flexible_tasks)"

text \<open>
  \<^verbatim>\<open>optimize_day_events\<close> up to its \<^verbatim>\<open>try\<close> statement: the fixed events and the tasks
  it hands on.
\<close>

definition classify_events :: "event list \<Rightarrow> exn + (event list \<times> event list)" where
  "classify_events events_in =
     (case separate_events events_in of
        Inl e \<Rightarrow> Inl e
      | Inr (fixed_events, flexible_tasks) \<Rightarrow>
          if length fixed_events > 1
          then resolve_fixed (sort_key ev_start fixed_events) [] flexible_tasks
          else Inr (fixed_events, flexible_tasks))"

definition optimize_day_events ::
  "solver \<Rightarrow> event list \<Rightarrow> datetime \<Rightarrow> int \<Rightarrow> int \<Rightarrow> exn + result" where
  "optimize_day_events solve events_in day_date day_start day_end =
     (if events_in = [] then Inr \<lparr>r_events = [], r_error = None, r_conflicts = None\<rparr>
      else
        (case classify_events events_in of
           Inl e \<Rightarrow> Inl e
         | Inr (fixed_events, flexible_tasks) \<Rightarrow>
             if flexible_tasks = []
             then Inr \<lparr>r_events = sort_key ev_start fixed_events, r_error = None,
                       r_conflicts = None\<rparr>
             else
               (case schedule_day solve
                       \<lparr>dayStart = day_start, dayEnd = day_end, data_events = fixed_events,
                        data_tasks = flexible_tasks, data_date = Some day_date\<rparr> of
                  Inl (RuntimeError e) \<Rightarrow>
                    Inr \<lparr>r_events = events_in, r_error = Some e, r_conflicts = None\<rparr>
                | Inl e \<Rightarrow> Inl e
                | Inr optimized \<Rightarrow> Inr optimized)))"

section \<open>Merge: \<^verbatim>\<open>merge_and_optimize_events\<close>\<close>

text \<open>The test \<^verbatim>\<open>needle in haystack\<close> on strings.\<close>

fun is_substring :: "string \<Rightarrow> string \<Rightarrow> bool" where
  "is_substring needle [] = (needle = [])"
| "is_substring needle (c # cs) =
     (take (length needle) (c # cs) = needle \<or> is_substring needle cs)"

definition name_matches :: "string \<Rightarrow> event \<Rightarrow> bool" where
  "name_matches name_lower e =
     is_substring name_lower (lower (case ev_name e of Some n \<Rightarrow> n | None \<Rightarrow> []))"

text \<open>
  An edit is a dictionary laid over an event, so for each key it matters whether the
  edit has it; a key it has may hold \<^verbatim>\<open>None\<close>.
\<close>

datatype 'a entry = Absent | Present 'a

record edit_event =
  ed_name :: "string entry"
  ed_type :: "string entry"
  ed_start :: "datetime entry"
  ed_end :: "datetime entry"
  ed_durationMinutes :: "int option entry"
  ed_earliestStart :: "datetime option entry"
  ed_latestEnd :: "datetime option entry"
  ed_extras :: "(string \<times> string option) list"

definition over :: "'a option \<Rightarrow> 'a entry \<Rightarrow> 'a option" where
  "over old new = (case new of Absent \<Rightarrow> old | Present v \<Rightarrow> Some v)"

definition over_opt :: "'a option \<Rightarrow> 'a option entry \<Rightarrow> 'a option" where
  "over_opt old new = (case new of Absent \<Rightarrow> old | Present v \<Rightarrow> v)"

text \<open>\<^verbatim>\<open>{**existing, **edit_event}\<close>.\<close>

definition overlay :: "event \<Rightarrow> edit_event \<Rightarrow> event" where
  "overlay existing edit =
     \<lparr>ev_name = over (ev_name existing) (ed_name edit),
      ev_type = over (ev_type existing) (ed_type edit),
      ev_start = over (ev_start existing) (ed_start edit),
      ev_end = over (ev_end existing) (ed_end edit),
      durationMinutes = over_opt (durationMinutes existing) (ed_durationMinutes edit),
      earliestStart = over_opt (earliestStart existing) (ed_earliestStart edit),
      latestEnd = over_opt (latestEnd existing) (ed_latestEnd edit),
      extras = foldl (\<lambda>d (k, v). AList.update k v d) (extras existing) (ed_extras edit)\<rparr>"

text \<open>The edit itself, read as an event when it is added as new.\<close>

definition as_event :: "edit_event \<Rightarrow> event" where
  "as_event edit = overlay empty_event edit"

definition delete_matching :: "event list \<Rightarrow> string \<Rightarrow> event list" where
  "delete_matching result_events delete_name =
     filter (\<lambda>e. \<not> name_matches (lower delete_name) e) result_events"

fun update_first :: "edit_event \<Rightarrow> event list \<Rightarrow> event list option" where
  "update_first edit [] = None"
| "update_first edit (existing # rest) =
     (if name_matches (lower (case ed_name edit of Present n \<Rightarrow> n | Absent \<Rightarrow> [])) existing
      then Some (overlay existing edit # rest)
      else map_option ((#) existing) (update_first edit rest))"

fun apply_edits ::
  "edit_event list \<Rightarrow> event list \<Rightarrow> event list \<Rightarrow> event list \<times> event list" where
  "apply_edits [] result_events new_events = (result_events, new_events)"
| "apply_edits (edit # rest) result_events new_events =
     (case update_first edit result_events of
        Some result_events' \<Rightarrow> apply_edits rest result_events' new_events
      | None \<Rightarrow> apply_edits rest result_events (new_events @ [as_event edit]))"

text \<open>Python's truth value of \<^verbatim>\<open>optimized.get("error")\<close>.\<close>

definition has_error :: "result \<Rightarrow> bool" where
  "has_error optimized = (case r_error optimized of None \<Rightarrow> False | Some msg \<Rightarrow> msg \<noteq> [])"

text \<open>
  \<^verbatim>\<open>optimize_day_events\<close> is called with its default day window, 08:00 to 21:00.
\<close>

definition merge_and_optimize_events ::
  "(int \<Rightarrow> int) \<Rightarrow> solver \<Rightarrow> event list \<Rightarrow> event list \<Rightarrow> string list \<Rightarrow> edit_event list \<Rightarrow> datetime \<Rightarrow>
   exn + result" where
  "merge_and_optimize_events round_trip solve existing_events new_events delete_names
     edit_events day_date =
     (let result_events = foldl delete_matching existing_events delete_names
      in case apply_edits edit_events result_events new_events of
           (result_events, new_events) \<Rightarrow>
             if new_events \<noteq> []
             then
               (case detect_and_resolve_conflicts round_trip result_events new_events
                       day_date of
                  (events_to_add, conflicts) \<Rightarrow>
                    if conflicts \<noteq> []
                    then
                      (case optimize_day_events solve (result_events @ events_to_add) day_date
                              (hm 8 0) (hm 21 0) of
                         Inl e \<Rightarrow> Inl e
                       | Inr optimized \<Rightarrow>
                           if has_error optimized
                           then Inr (optimized\<lparr>r_conflicts := Some conflicts\<rparr>)
                           else Inr (optimized\<lparr>r_conflicts := Some conflicts\<rparr>))
                    else optimize_day_events solve (result_events @ events_to_add) day_date
                           (hm 8 0) (hm 21 0))
             else optimize_day_events solve result_events day_date (hm 8 0) (hm 21 0))"

section \<open>The caller: \<^verbatim>\<open>handle_modify_schedule\<close> in \<^verbatim>\<open>audio_pipeline.py\<close>\<close>

record day_ops =
  ops_add :: "event list"
  ops_edit :: "edit_event list"
  ops_delete :: "string list"

text \<open>
  How the body of the loop over the days ends: by a return that reports the error of the
  optimizer, by a return that reports the conflicts, or by saving the day (after which
  the loop goes on); a day without operations is skipped.
\<close>

datatype day_outcome =
  DaySkipped
| SchedulingImpossible string
| ConflictDetected "conflict list"
| DaySaved

text \<open>
  The body of the loop. Between the optimizer and the save, the handler creates, updates
  and deletes events in the external calendar and writes the identifiers it gets into the
  optimized events; that is the parameter \<open>calendar_sync\<close>.
\<close>

definition handle_day ::
  "(int \<Rightarrow> int) \<Rightarrow> solver \<Rightarrow> (event list \<Rightarrow> event list) \<Rightarrow> datetime \<Rightarrow> store \<Rightarrow> string \<Rightarrow> day_ops \<Rightarrow>
   datetime \<Rightarrow> exn + (day_outcome \<times> store)" where
  "handle_day round_trip solve calendar_sync now manager day_name ops day_date =
     (if ops_add ops = [] \<and> ops_edit ops = [] \<and> ops_delete ops = []
      then Inr (DaySkipped, manager)
      else
        (case get_day_schedule manager day_name of
           Inl e \<Rightarrow> Inl e
         | Inr existing_schedule \<Rightarrow>
             (case merge_and_optimize_events round_trip solve (events existing_schedule)
                     (ops_add ops)
                     (ops_delete ops) (ops_edit ops) day_date of
                Inl e \<Rightarrow> Inl e
              | Inr optimized \<Rightarrow>
                  if has_error optimized
                  then Inr (SchedulingImpossible
                              (case r_error optimized of Some msg \<Rightarrow> msg | None \<Rightarrow> []),
                            manager)
                  else
                    (let conflicts = (case r_conflicts optimized of
                                        Some cs \<Rightarrow> cs | None \<Rightarrow> [])
                     in if conflicts \<noteq> []
                        then Inr (ConflictDetected conflicts, manager)
                        else
                          (case save_day_schedule now manager
                                  \<lparr>day = day_name,
                                   events = calendar_sync (r_events optimized),
                                   last_updated = None\<rparr> of
                             Inl e \<Rightarrow> Inl e
                           | Inr manager' \<Rightarrow> Inr (DaySaved, manager'))))))"

section \<open>A reference solver\<close>

text \<open>
  A complete search that stands for the external solver in the worked examples: it
  tries the start minutes of each task in ascending order and backtracks.
\<close>

definition free_at :: "(int \<times> int) list \<Rightarrow> int \<Rightarrow> int \<Rightarrow> bool" where
  "free_at placed s d = list_all (\<lambda>(ps, pd). s + d \<le> ps \<or> ps + pd \<le> s) placed"

function place_tasks ::
  "(int \<times> int) list \<Rightarrow> cp_task \<Rightarrow> cp_task list \<Rightarrow> int \<Rightarrow> int list option" where
  "place_tasks placed t ts s =
     (if task_ub t < s then None
      else if free_at placed s (task_size t) \<and> s + task_size t \<le> task_end_ub t
      then (case (case ts of
                    [] \<Rightarrow> Some []
                  | t' # ts' \<Rightarrow> place_tasks ((s, task_size t) # placed) t' ts' (task_lb t')) of
              Some starts \<Rightarrow> Some (s # starts)
            | None \<Rightarrow> place_tasks placed t ts (s + 1))
      else place_tasks placed t ts (s + 1))"
  by pat_completeness auto
termination
  by (relation "measures [\<lambda>(placed, t, ts, s). length ts,
                          \<lambda>(placed, t, ts, s). nat (task_ub t + 1 - s)]") auto

definition reference_solver :: solver where
  "reference_solver m =
     (if list_ex (\<lambda>(s, d). d < 0) (fixed_intervals m) then None
      else
        (case task_vars m of
           [] \<Rightarrow> Some (\<lambda>i. 0)
         | t # ts \<Rightarrow>
             map_option (\<lambda>starts i. if i < length starts then starts ! i else 0)
               (place_tasks (fixed_intervals m) t ts (task_lb t))))"

section \<open>Events of the worked examples\<close>

text \<open>
  The spans of the worked examples are whole minutes, at most a day long; the round trip
  through floating-point minutes gives such a span back.
\<close>

definition exact_round_trip :: "int \<Rightarrow> int" where
  "exact_round_trip d = d"

text \<open>
  The Monday of \<open>example_store\<close> is day 738878; it holds the stand-up from 09:00 to 09:30.
\<close>

definition monday :: datetime where
  "monday = 738878 * us_per_day"

definition standup :: event where
  "standup = fixed_event ''Standup'' (monday + hm 9 0) (monday + hm 9 30)"

definition lunch :: event where
  "lunch = fixed_event ''Lunch'' (monday + hm 12 0) (monday + hm 13 0)"

definition sync_call :: event where
  "sync_call = fixed_event ''Sync'' (monday + hm 9 15) (monday + hm 9 45)"

text \<open>A flexible task with a duration and no window of its own.\<close>

definition workshop :: "int \<Rightarrow> event" where
  "workshop minutes = \<lparr>ev_name = Some ''Workshop'', ev_type = Some ''flexible'',
     ev_start = None, ev_end = None, durationMinutes = Some minutes, earliestStart = None,
     latestEnd = None, extras = [(''day'', Some ''monday'')]\<rparr>"

definition add_only :: "event list \<Rightarrow> day_ops" where
  "add_only es = \<lparr>ops_add = es, ops_edit = [], ops_delete = []\<rparr>"

section \<open>Notions used in the statements\<close>

text \<open>
  The inner loop re-queues the displaceable conflicts (a fixed new event against a
  flexible item) and records every other one.
\<close>

definition displaceable :: "event \<Rightarrow> event \<Rightarrow> bool" where
  "displaceable new_event conflict_event \<longleftrightarrow>
     ev_type new_event = Some ''fixed'' \<and> ev_type conflict_event = Some ''flexible''"

text \<open>
  The two ways the optimizer fails to find an assignment: the model builder rejects a
  task whose window is too small for it, or the solver finds none for the model.
\<close>

definition no_assignment :: "solver \<Rightarrow> schedule_data \<Rightarrow> string \<Rightarrow> bool" where
  "no_assignment solve data msg \<longleftrightarrow>
     build_schedule_model data = Inl (RuntimeError msg) \<or>
     (\<exists>model_info. build_schedule_model data = Inr model_info \<and>
        solve (model model_info) = None \<and> msg = ''No feasible schedule could be found.'')"

text \<open>
  The name, start, end and duration of an event that has them, and what the model builder
  computes for a well-formed event.
\<close>

definition name_of :: "event \<Rightarrow> string" where
  "name_of e = (case ev_name e of Some n \<Rightarrow> n | None \<Rightarrow> [])"












section \<open>DialogueContext: properties\<close>

lemma reset_new_context: "reset self = new_context"
  by (simp add: reset_def new_context_def)

text \<open>
  A state set by either setter at time \<open>t\<close> and read more than 300 seconds later reads
  back as Idle, and the read clears the payload.
\<close>

lemma set_clarification_then_late_read:
  "now - t > 300 * us_per_second \<Longrightarrow>
   get_context now (set_clarification_state u t self) = (StateOnly IDLE, new_context)"
  by (simp add: get_context_def is_expired_def set_clarification_state_def reset_def
      new_context_def)

lemma set_conflict_then_late_read:
  "now - t > 300 * us_per_second \<Longrightarrow>
   get_context now (set_conflict_state p r t self) = (StateOnly IDLE, new_context)"
  by (simp add: get_context_def is_expired_def set_conflict_state_def reset_def
      new_context_def)

text \<open>
  C8. A read made more than 300 seconds after the last interaction returns the
  dictionary with only the state Idle, and leaves the manager in state Idle: a manager in a
  non-Idle state is reset, whatever state and payload it held.
\<close>

theorem C8_expired_read_returns_idle:
  assumes "last_interaction_time self = Some t" and "now - t > 300 * us_per_second"
  shows "fst (get_context now self) = StateOnly IDLE \<and>
         state (snd (get_context now self)) = IDLE \<and>
         snd (get_context now self) = (if state self \<noteq> IDLE then new_context else self)"
  using assms
  by (simp add: get_context_def is_expired_def reset_def new_context_def)

theorem C8_witness:
  "fst (get_context (301 * us_per_second)
     (set_conflict_state (fixed_event ''Review'' (hm 14 0) (hm 15 0))
        (Some \<lparr>rec_start = hm 15 0, rec_end = hm 16 0\<rparr>) 0 new_context)) = StateOnly IDLE \<and>
   snd (get_context (301 * us_per_second)
     (set_conflict_state (fixed_event ''Review'' (hm 14 0) (hm 15 0))
        (Some \<lparr>rec_start = hm 15 0, rec_end = hm 16 0\<rparr>) 0 new_context)) = new_context"
proof -
  let ?c = "set_conflict_state (fixed_event ''Review'' (hm 14 0) (hm 15 0))
        (Some \<lparr>rec_start = hm 15 0, rec_end = hm 16 0\<rparr>) 0 new_context"
  have t: "last_interaction_time ?c = Some 0"
    by (simp add: set_conflict_state_def)
  have late: "301 * us_per_second - 0 > 300 * us_per_second"
    by simp
  have st: "state ?c \<noteq> IDLE"
    by (simp add: set_conflict_state_def)
  from C8_expired_read_returns_idle [OF t late] st show ?thesis
    by simp
qed

text \<open>
  C10. A manager whose \<open>last_interaction_time\<close> is unset is expired for every timeout, and
  a read of it returns the dictionary with only the state Idle and leaves the manager in
  state Idle.
\<close>

theorem C10_unset_time_is_expired:
  assumes "last_interaction_time self = None"
  shows "is_expired now self timeout_seconds \<and>
         fst (get_context now self) = StateOnly IDLE \<and>
         state (snd (get_context now self)) = IDLE"
  using assms
  by (simp add: get_context_def is_expired_def reset_def)

theorem C10_witness:
  "is_expired 0 new_context 300 \<and> fst (get_context 0 new_context) = StateOnly IDLE \<and>
   state (snd (get_context 0 new_context)) = IDLE"
proof -
  have unset: "last_interaction_time new_context = None"
    by (simp add: new_context_def)
  from C10_unset_time_is_expired [OF unset] show ?thesis
    by blast
qed

text \<open>
  C9 (as amended). Each setter, called at time \<open>t\<close>, overwrites the state, the payload
  attributes of its own kind and the interaction time, whatever was pending before, and
  leaves the payload attributes of the other kind as they were:
  \<^verbatim>\<open>set_clarification_state\<close> keeps \<open>pending_event\<close> and \<open>recommendation\<close>,
  \<^verbatim>\<open>set_conflict_state\<close> keeps \<open>last_transcript\<close>. A read at a time \<open>now\<close> not more than
  300 seconds after \<open>t\<close> returns the new state with its own payload and with the payload
  of the other kind that was stored before the call, and leaves the manager as it is. A
  read at a time \<open>late\<close> more than 300 seconds after \<open>t\<close>, and a reset, clear all of it.
\<close>

theorem C9_setters_overwrite_own_payload:
  assumes "now - t \<le> 300 * us_per_second" and "300 * us_per_second < late - t"
  shows "set_clarification_state u t self =
           \<lparr>state = AWAITING_CLARIFICATION, last_transcript = Some u,
            pending_event = pending_event self, recommendation = recommendation self,
            last_interaction_time = Some t\<rparr> \<and>
         set_conflict_state p r t self =
           \<lparr>state = AWAITING_CONFLICT_RESOLUTION, last_transcript = last_transcript self,
            pending_event = Some p, recommendation = r, last_interaction_time = Some t\<rparr> \<and>
         get_context now (set_clarification_state u t self) =
           (Full AWAITING_CLARIFICATION (Some u) (pending_event self) (recommendation self),
            set_clarification_state u t self) \<and>
         get_context now (set_conflict_state p r t self) =
           (Full AWAITING_CONFLICT_RESOLUTION (last_transcript self) (Some p) r,
            set_conflict_state p r t self) \<and>
         get_context late (set_clarification_state u t self) = (StateOnly IDLE, new_context) \<and>
         get_context late (set_conflict_state p r t self) = (StateOnly IDLE, new_context) \<and>
         reset (set_clarification_state u t self) = new_context \<and>
         reset (set_conflict_state p r t self) = new_context"
proof -
  have "get_context now (set_clarification_state u t self) =
           (Full AWAITING_CLARIFICATION (Some u) (pending_event self) (recommendation self),
            set_clarification_state u t self)"
    using assms(1)
    by (simp add: get_context_def is_expired_def set_clarification_state_def)
  moreover have "get_context now (set_conflict_state p r t self) =
           (Full AWAITING_CONFLICT_RESOLUTION (last_transcript self) (Some p) r,
            set_conflict_state p r t self)"
    using assms(1)
    by (simp add: get_context_def is_expired_def set_conflict_state_def)
  moreover note set_clarification_then_late_read [OF assms(2), of u self]
    set_conflict_then_late_read [OF assms(2), of p r self]
    reset_new_context [of "set_clarification_state u t self"]
    reset_new_context [of "set_conflict_state p r t self"]
  ultimately show ?thesis
    by (simp add: set_clarification_state_def set_conflict_state_def)
qed

text \<open>
  A conflict is pending with the event Review and a recommendation; five seconds later
  the clarification state is entered, and five seconds after that the context is read:
  the read returns the clarification state together with the event and the
  recommendation of the conflict. The other way round, a conflict state entered over a
  pending clarification is read back with the utterance of the clarification.
\<close>

theorem C9_witness:
  "(let review = fixed_event ''Review'' (hm 14 0) (hm 15 0);
        later = Some \<lparr>rec_start = hm 15 0, rec_end = hm 16 0\<rparr>;
        conflict_pending = set_conflict_state review later 0 new_context;
        clarification_pending = set_clarification_state ''add gym'' 0 new_context
    in fst (get_context (10 * us_per_second)
              (set_clarification_state ''add gym'' (5 * us_per_second) conflict_pending))
         = Full AWAITING_CLARIFICATION (Some ''add gym'') (Some review) later \<and>
       fst (get_context (10 * us_per_second)
              (set_conflict_state review None (5 * us_per_second) clarification_pending))
         = Full AWAITING_CONFLICT_RESOLUTION (Some ''add gym'') (Some review) None \<and>
       fst (get_context (306 * us_per_second)
              (set_clarification_state ''add gym'' (5 * us_per_second) conflict_pending))
         = StateOnly IDLE)"
proof -
  let ?review = "fixed_event ''Review'' (hm 14 0) (hm 15 0)"
  let ?later = "Some \<lparr>rec_start = hm 15 0, rec_end = hm 16 0\<rparr>"
  let ?conflict = "set_conflict_state ?review ?later 0 new_context"
  let ?clarification = "set_clarification_state ''add gym'' 0 new_context"
  have soon: "10 * us_per_second - 5 * us_per_second \<le> 300 * us_per_second"
    and late: "300 * us_per_second < 306 * us_per_second - 5 * us_per_second"
    by simp_all
  have stored: "pending_event ?conflict = Some ?review" "recommendation ?conflict = ?later"
    "last_transcript ?clarification = Some ''add gym''"
    by (simp_all add: set_conflict_state_def set_clarification_state_def)
  note first = C9_setters_overwrite_own_payload
    [OF soon late, of "''add gym''" ?conflict ?review None]
  note second = C9_setters_overwrite_own_payload
    [OF soon late, of "''add gym''" ?clarification ?review None]
  from first have "get_context (10 * us_per_second)
      (set_clarification_state ''add gym'' (5 * us_per_second) ?conflict)
    = (Full AWAITING_CLARIFICATION (Some ''add gym'') (pending_event ?conflict)
         (recommendation ?conflict),
       set_clarification_state ''add gym'' (5 * us_per_second) ?conflict)"
    by blast
  then have a: "fst (get_context (10 * us_per_second)
      (set_clarification_state ''add gym'' (5 * us_per_second) ?conflict))
    = Full AWAITING_CLARIFICATION (Some ''add gym'') (Some ?review) ?later"
    by (simp only: stored fst_conv)
  from second have "get_context (10 * us_per_second)
      (set_conflict_state ?review None (5 * us_per_second) ?clarification)
    = (Full AWAITING_CONFLICT_RESOLUTION (last_transcript ?clarification) (Some ?review) None,
       set_conflict_state ?review None (5 * us_per_second) ?clarification)"
    by blast
  then have b: "fst (get_context (10 * us_per_second)
      (set_conflict_state ?review None (5 * us_per_second) ?clarification))
    = Full AWAITING_CONFLICT_RESOLUTION (Some ''add gym'') (Some ?review) None"
    by (simp only: stored fst_conv)
  from first have "get_context (306 * us_per_second)
      (set_clarification_state ''add gym'' (5 * us_per_second) ?conflict)
    = (StateOnly IDLE, new_context)"
    by blast
  then have c: "fst (get_context (306 * us_per_second)
      (set_clarification_state ''add gym'' (5 * us_per_second) ?conflict)) = StateOnly IDLE"
    by (simp only: fst_conv)
  from a b c show ?thesis
    by (simp only: Let_def)
qed

text \<open>
  The claim as stated fails: a conflict state followed by a clarification state leaves
  the pending event and the recommendation of the conflict observable in the next read.
\<close>

theorem C9_counterexample:
  "fst (get_context (10 * us_per_second)
     (set_clarification_state ''add gym'' (5 * us_per_second)
        (set_conflict_state (fixed_event ''Review'' (hm 14 0) (hm 15 0))
           (Some \<lparr>rec_start = hm 15 0, rec_end = hm 16 0\<rparr>) 0 new_context)))
   = Full AWAITING_CLARIFICATION (Some ''add gym'')
       (Some (fixed_event ''Review'' (hm 14 0) (hm 15 0)))
       (Some \<lparr>rec_start = hm 15 0, rec_end = hm 16 0\<rparr>)"
  by (simp add: get_context_def is_expired_def set_clarification_state_def
      set_conflict_state_def new_context_def)

section \<open>ScheduleStore: properties\<close>

declare get_week_metadata.simps [simp del]

lemma get_week_metadata_content:
  "meta_file self = Content m \<Longrightarrow> get_week_metadata now self = Inr (m, self)"
  by (simp add: get_week_metadata.simps)

lemma get_week_metadata_absent:
  "meta_file self = Missing \<or> meta_file self = Corrupt \<Longrightarrow> meta_writable self \<Longrightarrow>
   get_week_metadata now self =
     Inr (\<lparr>week_start_date = Some (get_current_week_start now), last_reset = Some now,
           last_modified = Some now\<rparr>,
          self\<lparr>meta_file := Content \<lparr>week_start_date = Some (get_current_week_start now),
            last_reset = Some now, last_modified = Some now\<rparr>\<rparr>)"
  by (auto simp: get_week_metadata.simps [of now self] reset_week_metadata_def
      get_week_metadata_content)







text \<open>
  C7 (as amended). For every weekday name, in any letter case, a read of the day whose
  file is missing or holds text that is not JSON returns the empty schedule of that day, a
  read of a file with content returns the content, and a read of a file that cannot be
  opened for another reason raises; a save of the day whose file cannot be opened for
  writing raises.
\<close>

theorem C7_read_and_write_failures:
  assumes "lower d \<in> set DAYS_OF_WEEK"
  shows "get_day_schedule self d =
           (case day_files self (lower d) of
              Missing \<Rightarrow> Inr (empty_schedule (lower d))
            | Corrupt \<Rightarrow> Inr (empty_schedule (lower d))
            | Unreadable \<Rightarrow> Inl OSError
            | Content data \<Rightarrow> Inr data) \<and>
         save_day_schedule now (self\<lparr>day_writable := (day_writable self)(lower d := False)\<rparr>)
           \<lparr>day = d, events = es, last_updated = u\<rparr> = Inl OSError"
  using assms
  by (simp add: get_day_schedule_def save_day_schedule_def Let_def split: json_file.splits)

theorem C7_witness:
  "get_day_schedule example_store ''Tuesday'' = Inr (empty_schedule ''tuesday'') \<and>
   save_day_schedule 0 (example_store\<lparr>day_writable := (day_writable example_store)(''tuesday'' := False)\<rparr>)
     \<lparr>day = ''Tuesday'', events = [], last_updated = None\<rparr> = Inl OSError"
proof -
  have l: "lower ''Tuesday'' = ''tuesday''"
    by (simp add: lower_def lower_char_def)
  then have d: "lower ''Tuesday'' \<in> set DAYS_OF_WEEK"
    by (simp add: DAYS_OF_WEEK_def)
  have f: "day_files example_store ''tuesday'' = Missing"
    by (simp add: example_store_def)
  from C7_read_and_write_failures [OF d, of example_store 0 "[]" None] l f show ?thesis
    by simp
qed

text \<open>
  The claim as stated fails for a file that exists and cannot be opened: only
  \<^verbatim>\<open>FileNotFoundError\<close> and \<^verbatim>\<open>JSONDecodeError\<close> are caught.
\<close>

theorem C7_counterexample:
  "get_day_schedule (example_store\<lparr>day_files := (day_files example_store)(''tuesday'' := Unreadable)\<rparr>)
     ''tuesday'' = Inl OSError"
  by (simp add: get_day_schedule_def lower_def lower_char_def DAYS_OF_WEEK_def)

section \<open>ConflictResolver: properties\<close>

lemma resolve_current_conflicts_eq:
  "resolve_current_conflicts rt n cs tent eta confs =
     (foldl (\<lambda>t c. remove1 c t) tent (filter (displaceable n) cs),
      eta @ filter (displaceable n) cs,
      confs @ map (conflict_record rt n) (filter (\<lambda>c. \<not> displaceable n c) cs))"
  by (induction cs arbitrary: tent eta confs) (simp_all add: displaceable_def)

lemma count_list_remove1_other:
  "c \<noteq> x \<Longrightarrow> count_list (remove1 c t) x = count_list t x"
  by (induction t) auto

lemma count_list_foldl_remove1:
  "x \<notin> set cs \<Longrightarrow> count_list (foldl (\<lambda>t c. remove1 c t) t cs) x = count_list t x"
  by (induction cs arbitrary: t) (auto simp: count_list_remove1_other)

lemma count_list_zero_iff: "count_list xs x = 0 \<longleftrightarrow> x \<notin> set xs"
  by (induction xs) auto

lemma in_set_foldl_remove1:
  "x \<in> set t \<Longrightarrow> x \<notin> set cs \<Longrightarrow> x \<in> set (foldl (\<lambda>t c. remove1 c t) t cs)"
  using count_list_foldl_remove1 [of x cs t] count_list_zero_iff [of t x]
    count_list_zero_iff [of "foldl (\<lambda>t c. remove1 c t) t cs" x]
  by simp

lemma detect_loop_append:
  "detect_loop rt (xs @ ys) st = detect_loop rt ys (detect_loop rt xs st)"
  by (induction xs arbitrary: st) simp_all

text \<open>Conflict records are only ever appended.\<close>

lemma process_new_event_conflicts_grow:
  "process_new_event rt n (tent, eta, confs) = (tent', eta', confs') \<Longrightarrow>
   set confs \<subseteq> set confs'"
  by (auto simp: process_new_event_def resolve_current_conflicts_eq Let_def
      split: if_splits)

lemma detect_loop_conflicts_grow:
  "detect_loop rt ns (tent, eta, confs) = (tent', eta', confs') \<Longrightarrow> set confs \<subseteq> set confs'"
proof (induction ns arbitrary: tent eta confs)
  case Nil
  then show ?case by simp
next
  case (Cons n ns)
  obtain t1 e1 c1 where step: "process_new_event rt n (tent, eta, confs) = (t1, e1, c1)"
    by (cases "process_new_event rt n (tent, eta, confs)") auto
  with Cons.prems have "detect_loop rt ns (t1, e1, c1) = (tent', eta', confs')"
    by simp
  then have "set c1 \<subseteq> set confs'"
    by (rule Cons.IH)
  with process_new_event_conflicts_grow [OF step] show ?case
    by blast
qed

text \<open>
  A fixed new event that overlaps a tentative item which is not flexible: the record of
  that conflict is appended, the flexible items it overlaps are re-queued, and the
  event itself is added nowhere.
\<close>

lemma process_new_event_blocked:
  assumes "ev_type n = Some ''fixed''" and "x \<in> set tent"
    and "ev_type x \<noteq> Some ''flexible''" and "check_time_overlap n x"
  shows "process_new_event rt n (tent, eta, confs) =
     (foldl (\<lambda>t c. remove1 c t) tent (filter (displaceable n) (find_conflicts n tent)),
      eta @ filter (displaceable n) (find_conflicts n tent),
      confs @ map (conflict_record rt n)
        (filter (\<lambda>c. \<not> displaceable n c) (find_conflicts n tent)))"
    and "conflict_record rt n x \<in> set (map (conflict_record rt n)
        (filter (\<lambda>c. \<not> displaceable n c) (find_conflicts n tent)))"
proof -
  have x_in: "x \<in> set (filter (\<lambda>c. \<not> displaceable n c) (find_conflicts n tent))"
    using assms by (simp add: find_conflicts_def displaceable_def)
  then show "conflict_record rt n x \<in> set (map (conflict_record rt n)
        (filter (\<lambda>c. \<not> displaceable n c) (find_conflicts n tent)))"
    by simp
  from x_in have ne: "filter (\<lambda>c. \<not> displaceable n c) (find_conflicts n tent) \<noteq> []"
    by (metis empty_iff empty_set)
  then have "find_conflicts n tent \<noteq> []"
    by (metis filter.simps(1))
  with ne assms(1) show "process_new_event rt n (tent, eta, confs) =
     (foldl (\<lambda>t c. remove1 c t) tent (filter (displaceable n) (find_conflicts n tent)),
      eta @ filter (displaceable n) (find_conflicts n tent),
      confs @ map (conflict_record rt n)
        (filter (\<lambda>c. \<not> displaceable n c) (find_conflicts n tent)))"
    by (simp add: process_new_event_def resolve_current_conflicts_eq Let_def)
qed

text \<open>
  Once a fixed event \<open>n\<close> is blocked by a tentative item \<open>x\<close> that is not flexible, \<open>x\<close>
  stays in the tentative schedule and no later iteration adds \<open>n\<close>.
\<close>

lemma process_new_event_keeps_blocked:
  assumes "ev_type n = Some ''fixed''" and "x \<in> set tent"
    and "ev_type x \<noteq> Some ''flexible''" and "check_time_overlap n x"
    and "process_new_event rt m (tent, eta, confs) = (tent', eta', confs')"
  shows "x \<in> set tent' \<and> count_list eta' n = count_list eta n"
proof (cases "ev_type m = Some ''flexible''")
  case True
  with assms(1) have "m \<noteq> n" by auto
  with True assms(2,5) show ?thesis
    by (auto simp: process_new_event_def)
next
  case not_flexible: False
  let ?cur = "find_conflicts m tent"
  let ?flex = "filter (displaceable m) ?cur"
  have x_flex: "x \<notin> set ?flex"
    using assms(3) by (simp add: displaceable_def)
  have n_flex: "n \<notin> set ?flex"
    using assms(1) by (simp add: displaceable_def)
  show ?thesis
  proof (cases "?cur = []")
    case True
    then have "\<not> check_time_overlap m x"
      using assms(2) by (auto simp: find_conflicts_def filter_empty_conv)
    with assms(4) have "m \<noteq> n" by auto
    with True not_flexible assms(2,5) show ?thesis
      by (auto simp: process_new_event_def Let_def)
  next
    case False
    have kept: "x \<in> set (foldl (\<lambda>t c. remove1 c t) tent ?flex)"
      using assms(2) x_flex by (rule in_set_foldl_remove1)
    have same: "count_list (eta @ ?flex) n = count_list eta n"
      using n_flex by (simp add: count_list_zero_iff)
    show ?thesis
    proof (cases "m = n")
      case True
      from process_new_event_blocked(1) [OF assms(1-4), of rt eta confs] assms(5) True
      have "tent' = foldl (\<lambda>t c. remove1 c t) tent ?flex" and "eta' = eta @ ?flex"
        by simp_all
      with kept same show ?thesis by simp
    next
      case False
      with \<open>?cur \<noteq> []\<close> not_flexible assms(5) kept same show ?thesis
        by (auto simp: process_new_event_def resolve_current_conflicts_eq Let_def
            split: if_splits)
    qed
  qed
qed

lemma detect_loop_keeps_blocked:
  assumes "ev_type n = Some ''fixed''" and "ev_type x \<noteq> Some ''flexible''"
    and "check_time_overlap n x"
  shows "x \<in> set tent \<Longrightarrow> detect_loop rt ms (tent, eta, confs) = (tent', eta', confs') \<Longrightarrow>
         count_list eta' n = count_list eta n"
proof (induction ms arbitrary: tent eta confs)
  case Nil
  then show ?case by simp
next
  case (Cons m ms)
  obtain t1 e1 c1 where step: "process_new_event rt m (tent, eta, confs) = (t1, e1, c1)"
    by (cases "process_new_event rt m (tent, eta, confs)") auto
  from process_new_event_keeps_blocked [OF assms(1) Cons.prems(1) assms(2,3) step]
  have x1: "x \<in> set t1" and cnt: "count_list e1 n = count_list eta n"
    by simp_all
  from Cons.prems(2) step have "detect_loop rt ms (t1, e1, c1) = (tent', eta', confs')"
    by simp
  with Cons.IH [OF x1] cnt show ?case
    by simp
qed

text \<open>
  C1 (as amended). In a batch \<open>before @ new_event # after\<close>, let the loop have reached
  the state \<open>(tentative, to_add, conflicts)\<close> when it takes up the fixed event
  \<open>new_event\<close>, which runs from \<open>s\<close> to \<open>e\<close>, and let a tentative item \<open>x\<close> that is not
  flexible run from \<open>xs\<close> to \<open>xe\<close> and overlap it as half-open intervals do: \<open>s < xe\<close> and
  \<open>xs < e\<close>. Let the round trip through floating-point minutes give the duration
  \<open>e - s\<close> back. Then this iteration appends a conflict record for \<open>new_event\<close> against
  \<open>x\<close>. Its recommendation starts at \<open>xe\<close> and ends at \<open>xe + (e - s)\<close> when that end is
  in the range of \<^verbatim>\<open>datetime\<close>, and is \<open>None\<close> when it is not. The record is among the
  conflicts the batch returns, and \<open>new_event\<close> is added to the accepted events neither
  by this iteration nor by the rest of the batch.
\<close>

theorem C1_fixed_conflict_recorded_not_added:
  assumes "new_events = before @ new_event # after"
    and "detect_loop rt before (existing_events, [], []) = (tentative, to_add, conflicts)"
    and "ev_type new_event = Some ''fixed''"
    and "ev_start new_event = Some s" and "ev_end new_event = Some e"
    and "x \<in> set tentative"
    and "ev_type x \<noteq> Some ''flexible''"
    and "ev_start x = Some xs" and "ev_end x = Some xe"
    and "s < xe" and "xs < e"
    and "rt (e - s) = e - s"
  shows "\<exists>recs.
           snd (snd (process_new_event rt new_event (tentative, to_add, conflicts)))
             = conflicts @ recs \<and>
           \<lparr>cf_new_event = new_event, cf_existing_event = x,
            cf_existing_type = (case ev_type x of None \<Rightarrow> ''fixed'' | Some t \<Rightarrow> t),
            cf_recommendation =
              (if datetime_min \<le> xe + (e - s) \<and> xe + (e - s) \<le> datetime_max
               then Some \<lparr>rec_start = xe, rec_end = xe + (e - s)\<rparr>
               else None)\<rparr> \<in> set recs \<and>
           set recs \<subseteq> set (snd (detect_and_resolve_conflicts rt existing_events new_events
                                   day_date)) \<and>
           count_list (fst (snd (process_new_event rt new_event (tentative, to_add, conflicts))))
             new_event = count_list to_add new_event \<and>
           count_list (fst (detect_and_resolve_conflicts rt existing_events new_events day_date))
             new_event = count_list to_add new_event"
proof -
  let ?cur = "find_conflicts new_event tentative"
  let ?flex = "filter (displaceable new_event) ?cur"
  let ?recs = "map (conflict_record rt new_event)
                 (filter (\<lambda>c. \<not> displaceable new_event c) ?cur)"
  let ?t1 = "foldl (\<lambda>t c. remove1 c t) tentative ?flex"
  have overlap: "check_time_overlap new_event x"
    using assms(4,5,8-11) by (simp add: check_time_overlap_def)
  note blocked = assms(3) assms(6) assms(7) overlap
  have step: "process_new_event rt new_event (tentative, to_add, conflicts)
              = (?t1, to_add @ ?flex, conflicts @ ?recs)"
    by (rule process_new_event_blocked(1) [OF blocked])
  have "conflict_record rt new_event x \<in> set ?recs"
    by (rule process_new_event_blocked(2) [OF blocked])
  then have rec_in:
    "\<lparr>cf_new_event = new_event, cf_existing_event = x,
      cf_existing_type = (case ev_type x of None \<Rightarrow> ''fixed'' | Some t \<Rightarrow> t),
      cf_recommendation =
        (if datetime_min \<le> xe + (e - s) \<and> xe + (e - s) \<le> datetime_max
         then Some \<lparr>rec_start = xe, rec_end = xe + (e - s)\<rparr>
         else None)\<rparr> \<in> set ?recs"
    using assms(4,5,9,12) by (simp add: conflict_record_def recommend_def Let_def)
  have n_flex: "new_event \<notin> set ?flex"
    using assms(3) by (simp add: displaceable_def)
  then have cnt_step: "count_list (to_add @ ?flex) new_event = count_list to_add new_event"
    by (simp add: count_list_zero_iff)
  have x_flex: "x \<notin> set ?flex"
    using assms(7) by (simp add: displaceable_def)
  have x1: "x \<in> set ?t1"
    using assms(6) x_flex by (rule in_set_foldl_remove1)
  obtain tf ef cf where final:
    "detect_loop rt after (?t1, to_add @ ?flex, conflicts @ ?recs) = (tf, ef, cf)"
    by (cases "detect_loop rt after (?t1, to_add @ ?flex, conflicts @ ?recs)") auto
  have whole: "detect_loop rt new_events (existing_events, [], []) = (tf, ef, cf)"
    using assms(1,2) step final by (simp add: detect_loop_append)
  then have result:
    "detect_and_resolve_conflicts rt existing_events new_events day_date = (ef, cf)"
    by (simp add: detect_and_resolve_conflicts_def)
  have "set (conflicts @ ?recs) \<subseteq> set cf"
    using final by (rule detect_loop_conflicts_grow)
  then have recs_final: "set ?recs \<subseteq> set cf"
    by simp
  have "count_list ef new_event = count_list (to_add @ ?flex) new_event"
    using assms(3,7) overlap x1 final by (rule detect_loop_keeps_blocked)
  with cnt_step have cnt_final: "count_list ef new_event = count_list to_add new_event"
    by simp
  show ?thesis
    apply (rule exI [of _ ?recs])
    using step rec_in recs_final cnt_step cnt_final result
    by (simp only: snd_conv fst_conv simp_thms)
qed

theorem C1_witness:
  "\<exists>recs.
     snd (snd (process_new_event exact_round_trip (fixed_event ''Call'' (hm 9 30) (hm 10 30))
       ([fixed_event ''Review'' (hm 9 0) (hm 10 0)],
        [fixed_event ''Review'' (hm 9 0) (hm 10 0)], []))) = [] @ recs \<and>
     \<lparr>cf_new_event = fixed_event ''Call'' (hm 9 30) (hm 10 30),
      cf_existing_event = fixed_event ''Review'' (hm 9 0) (hm 10 0),
      cf_existing_type = ''fixed'',
      cf_recommendation = Some \<lparr>rec_start = hm 10 0, rec_end = hm 11 0\<rparr>\<rparr> \<in> set recs \<and>
     set recs \<subseteq> set (snd (detect_and_resolve_conflicts exact_round_trip []
       [fixed_event ''Review'' (hm 9 0) (hm 10 0), fixed_event ''Call'' (hm 9 30) (hm 10 30)] 0)) \<and>
     count_list (fst (snd (process_new_event exact_round_trip
       (fixed_event ''Call'' (hm 9 30) (hm 10 30))
       ([fixed_event ''Review'' (hm 9 0) (hm 10 0)],
        [fixed_event ''Review'' (hm 9 0) (hm 10 0)], []))))
       (fixed_event ''Call'' (hm 9 30) (hm 10 30)) = 0 \<and>
     count_list (fst (detect_and_resolve_conflicts exact_round_trip []
       [fixed_event ''Review'' (hm 9 0) (hm 10 0), fixed_event ''Call'' (hm 9 30) (hm 10 30)] 0))
       (fixed_event ''Call'' (hm 9 30) (hm 10 30)) = 0"
proof -
  let ?X = "fixed_event ''Review'' (hm 9 0) (hm 10 0)"
  let ?A = "fixed_event ''Call'' (hm 9 30) (hm 10 30)"
  have batch: "[?X, ?A] = [?X] @ ?A # []"
    by simp
  have reached: "detect_loop exact_round_trip [?X] ([], [], []) = ([?X], [?X], [])"
    by (simp add: process_new_event_def find_conflicts_def fixed_event_def)
  have fixed: "ev_type ?A = Some ''fixed''"
    and s: "ev_start ?A = Some (hm 9 30)" and e: "ev_end ?A = Some (hm 10 30)"
    by (simp_all add: fixed_event_def)
  have member: "?X \<in> set [?X]"
    by simp
  have not_flexible: "ev_type ?X \<noteq> Some ''flexible''"
    and xs: "ev_start ?X = Some (hm 9 0)" and xe: "ev_end ?X = Some (hm 10 0)"
    by (simp_all add: fixed_event_def)
  have before_end: "hm 9 30 < hm 10 0" and after_start: "hm 9 0 < hm 10 30"
    by (simp_all add: hm_def)
  have exact: "exact_round_trip (hm 10 30 - hm 9 30) = hm 10 30 - hm 9 30"
    by (simp add: exact_round_trip_def)
  have distinct: "?A \<noteq> ?X"
    by (simp add: fixed_event_def)
  have in_range: "datetime_min \<le> hm 10 0 + (hm 10 30 - hm 9 30)"
    "hm 10 0 + (hm 10 30 - hm 9 30) \<le> datetime_max"
    "hm 10 0 + (hm 10 30 - hm 9 30) = hm 11 0"
    by (simp_all add: hm_def)
  from C1_fixed_conflict_recorded_not_added
         [OF batch reached fixed s e member not_flexible xs xe before_end after_start exact,
          of 0]
       distinct in_range
  show ?thesis
    by (simp add: fixed_event_def)
qed

text \<open>
  The claim as stated fails at the end of the range of \<^verbatim>\<open>datetime\<close>. On 9999-12-31 the
  review from 22:00 to 23:00 is in the day and a call from 22:30 to 23:30 is added. The
  conflict is recorded, but an hour after the end of the review lies past
  \<^verbatim>\<open>datetime.max\<close>, and the record carries no recommendation.
\<close>

theorem C1_counterexample:
  "detect_and_resolve_conflicts exact_round_trip
     [fixed_event ''Review'' (3652058 * us_per_day + hm 22 0) (3652058 * us_per_day + hm 23 0)]
     [fixed_event ''Call'' (3652058 * us_per_day + hm 22 30) (3652058 * us_per_day + hm 23 30)]
     (3652058 * us_per_day)
   = ([],
      [\<lparr>cf_new_event = fixed_event ''Call'' (3652058 * us_per_day + hm 22 30)
                         (3652058 * us_per_day + hm 23 30),
        cf_existing_event = fixed_event ''Review'' (3652058 * us_per_day + hm 22 0)
                         (3652058 * us_per_day + hm 23 0),
        cf_existing_type = ''fixed'',
        cf_recommendation = None\<rparr>])"
  by (simp add: detect_and_resolve_conflicts_def process_new_event_def find_conflicts_def
      check_time_overlap_def conflict_record_def recommend_def exact_round_trip_def
      fixed_event_def hm_def)

text \<open>
  C2, where the code departs from it. The review at 09:00 to 10:00 is fixed and the gym
  task at 14:00 to 14:30 is flexible. The batch adds a call at 09:30 to 10:30, which
  conflicts with the review, and then a dentist appointment at 14:00 to 15:00, which
  overlaps only the flexible gym task. The gym task is re-queued, but the dentist
  appointment is neither accepted nor reported: the test that lets it through looks at
  the conflicts of the whole batch, which already hold the record of the call.
\<close>

theorem C2_fixed_event_dropped_after_earlier_conflict:
  "detect_and_resolve_conflicts exact_round_trip
     [fixed_event ''Review'' (hm 9 0) (hm 10 0), flexible_event ''Gym'' (hm 14 0) (hm 14 30) 30]
     [fixed_event ''Call'' (hm 9 30) (hm 10 30), fixed_event ''Dentist'' (hm 14 0) (hm 15 0)] 0
   = ([flexible_event ''Gym'' (hm 14 0) (hm 14 30) 30],
      [conflict_record exact_round_trip (fixed_event ''Call'' (hm 9 30) (hm 10 30))
         (fixed_event ''Review'' (hm 9 0) (hm 10 0))])"
  by (simp add: detect_and_resolve_conflicts_def process_new_event_def find_conflicts_def
      check_time_overlap_def fixed_event_def flexible_event_def hm_def)

text \<open>The same two additions in the other order: the dentist appointment is accepted.\<close>

lemma fixed_event_accepted_before_conflict:
  "detect_and_resolve_conflicts exact_round_trip
     [fixed_event ''Review'' (hm 9 0) (hm 10 0), flexible_event ''Gym'' (hm 14 0) (hm 14 30) 30]
     [fixed_event ''Dentist'' (hm 14 0) (hm 15 0), fixed_event ''Call'' (hm 9 30) (hm 10 30)] 0
   = ([flexible_event ''Gym'' (hm 14 0) (hm 14 30) 30,
       fixed_event ''Dentist'' (hm 14 0) (hm 15 0)],
      [conflict_record exact_round_trip (fixed_event ''Call'' (hm 9 30) (hm 10 30))
         (fixed_event ''Review'' (hm 9 0) (hm 10 0))])"
  by (simp add: detect_and_resolve_conflicts_def process_new_event_def find_conflicts_def
      check_time_overlap_def fixed_event_def flexible_event_def hm_def)

text \<open>
  When the batch has recorded no conflict so far, a fixed event whose overlapping
  tentative items are all flexible is accepted, the items are taken out of the tentative
  schedule and re-queued, and no record is made.
\<close>

lemma fixed_over_flexible_accepted:
  assumes "ev_type n = Some ''fixed''"
    and "\<forall>c\<in>set (find_conflicts n tent). ev_type c = Some ''flexible''"
  shows "process_new_event rt n (tent, eta, []) =
     (foldl (\<lambda>t c. remove1 c t) tent (find_conflicts n tent) @ [n],
      eta @ find_conflicts n tent @ [n], [])"
proof -
  have all: "filter (displaceable n) (find_conflicts n tent) = find_conflicts n tent"
    using assms by (simp add: displaceable_def)
  have none: "filter (\<lambda>c. \<not> displaceable n c) (find_conflicts n tent) = []"
    using assms by (simp add: displaceable_def)
  from assms(1) all none show ?thesis
    by (simp add: process_new_event_def resolve_current_conflicts_eq Let_def)
qed

section \<open>Merge, optimizer failure and persistence: properties\<close>

lemma traverse_Inl:
  "traverse f xs = Inl e \<Longrightarrow> \<exists>x\<in>set xs. f x = Inl e"
  by (induction xs) (auto split: sum.splits)

lemma impossible_window_not_empty: "impossible_window name \<noteq> []"
  by (simp add: impossible_window_def)

lemma task_entry_RuntimeError:
  "task_entry day_start day_end t = Inl (RuntimeError msg) \<Longrightarrow>
   \<exists>name. ev_name t = Some name \<and> msg = impossible_window name"
  by (auto simp: task_entry_def Let_def split: option.splits if_splits)

lemma fixed_entry_no_RuntimeError:
  "fixed_entry day_start e \<noteq> Inl (RuntimeError msg)"
  by (auto simp: fixed_entry_def Let_def split: option.splits)

lemma schedule_date_of_no_RuntimeError:
  "schedule_date_of data \<noteq> Inl (RuntimeError msg)"
  by (auto simp: schedule_date_of_def split: option.splits list.splits)

lemma build_schedule_model_RuntimeError:
  assumes "build_schedule_model data = Inl (RuntimeError msg)"
  shows "\<exists>t\<in>set (data_tasks data). \<exists>name. ev_name t = Some name \<and> msg = impossible_window name"
proof (cases "schedule_date_of data")
  case (Inl e)
  with assms have "schedule_date_of data = Inl (RuntimeError msg)"
    by (simp add: build_schedule_model_def)
  then show ?thesis
    by (simp add: schedule_date_of_no_RuntimeError)
next
  case (Inr schedule_date)
  let ?ds = "schedule_date * us_per_day + dayStart data"
  let ?de = "schedule_date * us_per_day + dayEnd data"
  show ?thesis
  proof (cases "traverse (fixed_entry ?ds) (data_events data)")
    case (Inl e)
    with Inr assms have "traverse (fixed_entry ?ds) (data_events data) = Inl (RuntimeError msg)"
      by (simp add: build_schedule_model_def Let_def)
    then obtain e where "fixed_entry ?ds e = Inl (RuntimeError msg)"
      using traverse_Inl by blast
    then show ?thesis
      by (simp add: fixed_entry_no_RuntimeError)
  next
    case fixed: (Inr fixed)
    with Inr assms
    have "traverse (task_entry ?ds ?de) (data_tasks data) = Inl (RuntimeError msg)"
      by (simp add: build_schedule_model_def Let_def split: sum.splits)
    then obtain t where "t \<in> set (data_tasks data)"
      and "task_entry ?ds ?de t = Inl (RuntimeError msg)"
      using traverse_Inl by blast
    then show ?thesis
      using task_entry_RuntimeError by blast
  qed
qed

lemma no_assignment_schedule_day:
  assumes "no_assignment solve data msg" and "data_tasks data \<noteq> []"
  shows "schedule_day solve data = Inl (RuntimeError msg)" and "msg \<noteq> []"
proof -
  from assms show "schedule_day solve data = Inl (RuntimeError msg)"
    by (auto simp: no_assignment_def schedule_day_def solve_schedule_def)
  show "msg \<noteq> []"
  proof (cases "build_schedule_model data = Inl (RuntimeError msg)")
    case True
    then obtain name where "msg = impossible_window name"
      using build_schedule_model_RuntimeError by blast
    then show ?thesis
      by (simp add: impossible_window_not_empty)
  next
    case False
    with assms(1) have "msg = ''No feasible schedule could be found.''"
      by (auto simp: no_assignment_def)
    then show ?thesis
      by simp
  qed
qed

text \<open>
  A task whose latest end minus its duration lies before its earliest start, after
  fixed events and tasks that the builder accepts, makes the builder raise the error that
  names it.
\<close>

lemma traverse_append_Inl:
  "traverse f xs = Inr ys \<Longrightarrow> f x = Inl e \<Longrightarrow> traverse f (xs @ x # zs) = Inl e"
  by (induction xs arbitrary: ys) (auto split: sum.splits)

lemma empty_domain_no_assignment:
  assumes "data_date data = Some d"
    and "traverse (fixed_entry (d div us_per_day * us_per_day + dayStart data))
           (data_events data) = Inr fixed"
    and "data_tasks data = before @ t # after"
    and "traverse (task_entry (d div us_per_day * us_per_day + dayStart data)
           (d div us_per_day * us_per_day + dayEnd data)) before = Inr accepted"
    and "ev_name t = Some name" and "durationMinutes t = Some duration"
    and "minutes_since_day_start
           (case latestEnd t of Some l \<Rightarrow> l
            | None \<Rightarrow> d div us_per_day * us_per_day + dayEnd data)
           (d div us_per_day * us_per_day + dayStart data) - duration
         < minutes_since_day_start
           (case earliestStart t of Some s \<Rightarrow> s
            | None \<Rightarrow> d div us_per_day * us_per_day + dayStart data)
           (d div us_per_day * us_per_day + dayStart data)"
  shows "no_assignment solve data (impossible_window name)"
proof -
  let ?ds = "d div us_per_day * us_per_day + dayStart data"
  let ?de = "d div us_per_day * us_per_day + dayEnd data"
  have "task_entry ?ds ?de t = Inl (RuntimeError (impossible_window name))"
    using assms(5-7) by (simp add: task_entry_def Let_def)
  with assms(4) have "traverse (task_entry ?ds ?de) (before @ t # after)
      = Inl (RuntimeError (impossible_window name))"
    by (rule traverse_append_Inl)
  with assms(1-3) have "build_schedule_model data = Inl (RuntimeError (impossible_window name))"
    by (simp add: build_schedule_model_def schedule_date_of_def Let_def)
  then show ?thesis
    by (simp add: no_assignment_def)
qed

text \<open>
  The events \<^verbatim>\<open>merge_and_optimize_events\<close> hands to the optimizer, and the conflicts
  it attaches to the result.
\<close>

lemma detect_no_new_events: "detect_and_resolve_conflicts rt result_events [] day_date = ([], [])"
  by (simp add: detect_and_resolve_conflicts_def)

lemma merge_and_optimize_events_eq:
  assumes "apply_edits edit_events (foldl delete_matching existing_events delete_names)
             new_events = (result_events, new_events')"
    and "detect_and_resolve_conflicts rt result_events new_events' day_date
           = (events_to_add, conflicts)"
  shows "merge_and_optimize_events rt solve existing_events new_events delete_names edit_events
           day_date =
         (case optimize_day_events solve (result_events @ events_to_add) day_date
                 (hm 8 0) (hm 21 0) of
            Inl e \<Rightarrow> Inl e
          | Inr optimized \<Rightarrow>
              Inr (if conflicts \<noteq> [] then optimized\<lparr>r_conflicts := Some conflicts\<rparr>
                   else optimized))"
proof (cases "new_events' = []")
  case True
  with assms(2) have "events_to_add = []" and "conflicts = []"
    by (simp_all add: detect_no_new_events)
  with True assms(1) show ?thesis
    by (simp add: merge_and_optimize_events_def Let_def split: sum.splits)
next
  case False
  with assms show ?thesis
    by (simp add: merge_and_optimize_events_def Let_def split: sum.splits)
qed

lemma conflicts_need_operations:
  assumes "apply_edits (ops_edit ops) (foldl delete_matching existing_events (ops_delete ops))
             (ops_add ops) = (result_events, new_events)"
    and "detect_and_resolve_conflicts rt result_events new_events day_date
           = (events_to_add, conflicts)"
    and "conflicts \<noteq> []"
  shows "\<not> (ops_add ops = [] \<and> ops_edit ops = [] \<and> ops_delete ops = [])"
proof
  assume "ops_add ops = [] \<and> ops_edit ops = [] \<and> ops_delete ops = []"
  with assms(1) have "new_events = []"
    by simp
  with assms(2,3) show False
    by (simp add: detect_no_new_events)
qed

text \<open>
  C3 (as amended). When the batch of a day produces conflict records and the optimizer
  succeeds, \<^verbatim>\<open>merge_and_optimize_events\<close> returns the optimizer's result for the
  surviving and edited existing events followed by the accepted additions and re-queued
  flexible items, with the conflicts attached: nothing is rolled back inside the merge.
  The caller then returns the conflicts and leaves the store as it was: nothing of the
  batch is saved for that day.
\<close>

theorem C3_conflicts_returned_day_not_saved:
  assumes "get_day_schedule manager day_name = Inr existing_schedule"
    and "apply_edits (ops_edit ops)
           (foldl delete_matching (events existing_schedule) (ops_delete ops)) (ops_add ops)
         = (result_events, new_events)"
    and "detect_and_resolve_conflicts rt result_events new_events day_date
         = (events_to_add, conflicts)"
    and "conflicts \<noteq> []"
    and "optimize_day_events solve (result_events @ events_to_add) day_date (hm 8 0) (hm 21 0)
         = Inr optimized"
    and "\<not> has_error optimized"
  shows "merge_and_optimize_events rt solve (events existing_schedule) (ops_add ops)
           (ops_delete ops) (ops_edit ops) day_date
         = Inr (optimized\<lparr>r_conflicts := Some conflicts\<rparr>) \<and>
         handle_day rt solve calendar_sync now manager day_name ops day_date
         = Inr (ConflictDetected conflicts, manager)"
proof -
  have merged: "merge_and_optimize_events rt solve (events existing_schedule) (ops_add ops)
           (ops_delete ops) (ops_edit ops) day_date
         = Inr (optimized\<lparr>r_conflicts := Some conflicts\<rparr>)"
    using merge_and_optimize_events_eq [OF assms(2,3), of solve] assms(4,5)
    by simp
  have ops: "\<not> (ops_add ops = [] \<and> ops_edit ops = [] \<and> ops_delete ops = [])"
    using assms(2-4) by (rule conflicts_need_operations)
  have "\<not> has_error (optimized\<lparr>r_conflicts := Some conflicts\<rparr>)"
    using assms(6) by (simp add: has_error_def)
  with merged ops assms(1,4) show ?thesis
    by (simp add: handle_day_def Let_def)
qed

text \<open>
  C4. Let the optimizer find no assignment for the events of a day after merging: the
  builder rejects a task whose window is too small, or the solver finds no assignment.
  Then \<^verbatim>\<open>optimize_day_events\<close> returns, without raising, the events it was given and
  the error message, which is not empty; \<^verbatim>\<open>merge_and_optimize_events\<close> returns that
  error, with the conflicts of the batch attached when there are any; and the caller
  reports the error, whatever the conflicts, and leaves the store as it was.
\<close>

theorem C4_no_assignment_reported_not_saved:
  assumes "get_day_schedule manager day_name = Inr existing_schedule"
    and "\<not> (ops_add ops = [] \<and> ops_edit ops = [] \<and> ops_delete ops = [])"
    and "apply_edits (ops_edit ops)
           (foldl delete_matching (events existing_schedule) (ops_delete ops)) (ops_add ops)
         = (result_events, new_events)"
    and "detect_and_resolve_conflicts rt result_events new_events day_date
         = (events_to_add, conflicts)"
    and "classify_events (result_events @ events_to_add) = Inr (fixed_events, flexible_tasks)"
    and "flexible_tasks \<noteq> []"
    and "no_assignment solve
           \<lparr>dayStart = hm 8 0, dayEnd = hm 21 0, data_events = fixed_events,
            data_tasks = flexible_tasks, data_date = Some day_date\<rparr> msg"
  shows "msg \<noteq> [] \<and>
         optimize_day_events solve (result_events @ events_to_add) day_date (hm 8 0) (hm 21 0)
         = Inr \<lparr>r_events = result_events @ events_to_add, r_error = Some msg,
                r_conflicts = None\<rparr> \<and>
         merge_and_optimize_events rt solve (events existing_schedule) (ops_add ops)
           (ops_delete ops) (ops_edit ops) day_date
         = Inr \<lparr>r_events = result_events @ events_to_add, r_error = Some msg,
                r_conflicts = (if conflicts \<noteq> [] then Some conflicts else None)\<rparr> \<and>
         handle_day rt solve calendar_sync now manager day_name ops day_date
         = Inr (SchedulingImpossible msg, manager)"
proof -
  let ?data = "\<lparr>dayStart = hm 8 0, dayEnd = hm 21 0, data_events = fixed_events,
            data_tasks = flexible_tasks, data_date = Some day_date\<rparr>"
  let ?all = "result_events @ events_to_add"
  have tasks: "data_tasks ?data \<noteq> []"
    using assms(6) by simp
  have raised: "schedule_day solve ?data = Inl (RuntimeError msg)"
    using assms(7) tasks by (rule no_assignment_schedule_day(1))
  have msg: "msg \<noteq> []"
    using assms(7) tasks by (rule no_assignment_schedule_day(2))
  have nonempty: "?all \<noteq> []"
  proof
    assume "?all = []"
    then have "classify_events ?all = Inr ([], [])"
      by (simp add: classify_events_def)
    with assms(5,6) show False
      by simp
  qed
  have optimized: "optimize_day_events solve ?all day_date (hm 8 0) (hm 21 0)
         = Inr \<lparr>r_events = ?all, r_error = Some msg, r_conflicts = None\<rparr>"
    using nonempty assms(5,6) raised
    by (simp add: optimize_day_events_def)
  have merged: "merge_and_optimize_events rt solve (events existing_schedule) (ops_add ops)
           (ops_delete ops) (ops_edit ops) day_date
         = Inr \<lparr>r_events = ?all, r_error = Some msg,
                r_conflicts = (if conflicts \<noteq> [] then Some conflicts else None)\<rparr>"
    using merge_and_optimize_events_eq [OF assms(3,4), of solve] optimized
    by simp
  have "handle_day rt solve calendar_sync now manager day_name ops day_date
         = Inr (SchedulingImpossible msg, manager)"
    using assms(1,2) merged msg
    by (simp add: handle_day_def has_error_def)
  with msg optimized merged show ?thesis
    by simp
qed

lemmas example_defs = standup_def lunch_def sync_call_def workshop_def monday_def
  fixed_event_def hm_def add_only_def

lemma example_store_monday:
  "get_day_schedule example_store ''monday'' =
     Inr \<lparr>day = ''monday'', events = [standup], last_updated = Some (monday + hm 8 0)\<rparr>"
  by (simp add: get_day_schedule_def example_store_def lower_def lower_char_def
      DAYS_OF_WEEK_def example_defs)

lemma example_conflict:
  "detect_and_resolve_conflicts exact_round_trip [standup] [lunch, sync_call] monday
     = ([lunch], [conflict_record exact_round_trip sync_call standup])"
  by (simp add: detect_and_resolve_conflicts_def process_new_event_def find_conflicts_def
      check_time_overlap_def example_defs)

lemma example_two_fixed:
  "optimize_day_events solve [standup, lunch] monday (hm 8 0) (hm 21 0)
     = Inr \<lparr>r_events = [standup, lunch], r_error = None, r_conflicts = None\<rparr>"
  by (simp add: optimize_day_events_def classify_events_def fixed_copy_def find_conflicts_def
      check_time_overlap_def example_defs)

theorem C3_witness:
  "merge_and_optimize_events exact_round_trip reference_solver [standup] [lunch, sync_call] [] [] monday
     = Inr \<lparr>r_events = [standup, lunch], r_error = None,
            r_conflicts = Some [conflict_record exact_round_trip sync_call standup]\<rparr> \<and>
   handle_day exact_round_trip reference_solver (\<lambda>es. es) (monday + hm 8 30) example_store ''monday''
       (add_only [lunch, sync_call]) monday
     = Inr (ConflictDetected [conflict_record exact_round_trip sync_call standup], example_store)"
proof -
  let ?existing = "\<lparr>day = ''monday'', events = [standup],
                    last_updated = Some (monday + hm 8 0)\<rparr>"
  let ?ops = "add_only [lunch, sync_call]"
  let ?optimized = "\<lparr>r_events = [standup, lunch], r_error = None, r_conflicts = None\<rparr>"
  have edits: "apply_edits (ops_edit ?ops)
         (foldl delete_matching (events ?existing) (ops_delete ?ops)) (ops_add ?ops)
       = ([standup], [lunch, sync_call])"
    by (simp add: add_only_def)
  have some: "[conflict_record exact_round_trip sync_call standup] \<noteq> []"
    by simp
  have optimized: "optimize_day_events reference_solver ([standup] @ [lunch]) monday
        (hm 8 0) (hm 21 0) = Inr ?optimized"
    using example_two_fixed [of reference_solver] by simp
  have fine: "\<not> has_error ?optimized"
    by (simp add: has_error_def)
  from C3_conflicts_returned_day_not_saved
         [OF example_store_monday edits example_conflict some optimized fine,
          of "\<lambda>es. es" "monday + hm 8 30"]
  show ?thesis
    by (simp add: add_only_def)
qed

text \<open>
  The claim as stated fails: the batch adds a lunch, which conflicts with nothing, and a
  call that conflicts with the stand-up. The lunch is accepted and is among the events
  the merge returns, but the caller returns the conflict without saving, and Monday
  still holds the stand-up alone.
\<close>

theorem C3_counterexample:
  "fst (detect_and_resolve_conflicts exact_round_trip [standup] [lunch, sync_call] monday) = [lunch] \<and>
   handle_day exact_round_trip reference_solver (\<lambda>es. es) (monday + hm 8 30) example_store ''monday''
       (add_only [lunch, sync_call]) monday
     = Inr (ConflictDetected [conflict_record exact_round_trip sync_call standup], example_store) \<and>
   get_day_schedule example_store ''monday''
     = Inr \<lparr>day = ''monday'', events = [standup], last_updated = Some (monday + hm 8 0)\<rparr>"
proof -
  have "merge_and_optimize_events exact_round_trip reference_solver [standup] [lunch, sync_call] [] [] monday
     = Inr \<lparr>r_events = [standup, lunch], r_error = None,
            r_conflicts = Some [conflict_record exact_round_trip sync_call standup]\<rparr>"
    using example_conflict example_two_fixed [of reference_solver]
    by (simp add: merge_and_optimize_events_def)
  then have "handle_day exact_round_trip reference_solver (\<lambda>es. es) (monday + hm 8 30) example_store ''monday''
       (add_only [lunch, sync_call]) monday
     = Inr (ConflictDetected [conflict_record exact_round_trip sync_call standup], example_store)"
    using example_store_monday
    by (simp add: handle_day_def add_only_def has_error_def)
  with example_conflict example_store_monday show ?thesis
    by simp
qed

lemma example_classify:
  "classify_events [standup, workshop minutes] =
     Inr ([standup], [(workshop minutes)\<lparr>durationMinutes :=
        Some (if minutes \<noteq> 0 then minutes else 60)\<rparr>])"
  by (simp add: classify_events_def fixed_copy_def flexible_task_def span_minutes_def
      example_defs)

lemma example_no_room:
  "no_assignment reference_solver
     \<lparr>dayStart = hm 8 0, dayEnd = hm 21 0, data_events = [standup],
      data_tasks = [workshop 780], data_date = Some monday\<rparr>
     ''No feasible schedule could be found.''"
  by (simp add: no_assignment_def build_schedule_model_def schedule_date_of_def fixed_entry_def
      task_entry_def minutes_since_day_start_def dict_of_def reference_solver_def free_at_def
      example_defs)

lemma example_window_too_small:
  "no_assignment solve
     \<lparr>dayStart = hm 8 0, dayEnd = hm 21 0, data_events = [standup],
      data_tasks = [workshop 800], data_date = Some monday\<rparr>
     (impossible_window ''Workshop'')"
  by (simp add: no_assignment_def build_schedule_model_def schedule_date_of_def fixed_entry_def
      task_entry_def minutes_since_day_start_def example_defs)

theorem C4_witness:
  "handle_day exact_round_trip reference_solver (\<lambda>es. es) (monday + hm 8 30) example_store ''monday''
       (add_only [workshop 780]) monday
     = Inr (SchedulingImpossible ''No feasible schedule could be found.'', example_store) \<and>
   merge_and_optimize_events exact_round_trip reference_solver [standup] [workshop 800] [] [] monday
     = Inr \<lparr>r_events = [standup, workshop 800],
            r_error = Some (impossible_window ''Workshop''), r_conflicts = None\<rparr>"
proof -
  let ?existing = "\<lparr>day = ''monday'', events = [standup],
                    last_updated = Some (monday + hm 8 0)\<rparr>"
  have ops: "\<not> (ops_add (add_only [workshop m]) = [] \<and> ops_edit (add_only [workshop m]) = [] \<and>
       ops_delete (add_only [workshop m]) = [])" for m
    by (simp add: add_only_def)
  have edits: "apply_edits (ops_edit (add_only [workshop m]))
         (foldl delete_matching (events ?existing) (ops_delete (add_only [workshop m])))
         (ops_add (add_only [workshop m]))
       = ([standup], [workshop m])" for m
    by (simp add: add_only_def)
  have queued: "detect_and_resolve_conflicts exact_round_trip [standup] [workshop m] monday
       = ([workshop m], [])" for m
    by (simp add: detect_and_resolve_conflicts_def process_new_event_def workshop_def)
  have classified: "classify_events ([standup] @ [workshop 780])
       = Inr ([standup], [workshop 780])"
    and classified': "classify_events ([standup] @ [workshop 800])
       = Inr ([standup], [workshop 800])"
    using example_classify [of 780] example_classify [of 800]
    by (simp_all add: workshop_def)
  have tasks: "[workshop m] \<noteq> []" for m
    by simp
  from C4_no_assignment_reported_not_saved
         [OF example_store_monday ops edits queued classified tasks example_no_room,
          of "\<lambda>es. es" "monday + hm 8 30"]
       C4_no_assignment_reported_not_saved
         [OF example_store_monday ops edits queued classified' tasks
             example_window_too_small [of reference_solver],
          of "\<lambda>es. es" "monday + hm 8 30"]
  show ?thesis
    by (simp add: add_only_def)
qed


section \<open>Optimizer: properties\<close>





lemma traverse_Inr_each:
  "traverse f xs = Inr ys \<Longrightarrow> x \<in> set xs \<Longrightarrow> \<exists>y. f x = Inr y"
  by (induction xs arbitrary: ys) (auto split: sum.splits)






















lemma check_time_overlap_type [simp]:
  "check_time_overlap (a\<lparr>ev_type := k\<rparr>) (b\<lparr>ev_type := k'\<rparr>) = check_time_overlap a b"
  by (simp add: check_time_overlap_def)

lemma name_of_type [simp]: "name_of (e\<lparr>ev_type := k\<rparr>) = name_of e"
  by (simp add: name_of_def)

lemma name_of_flexible_task [simp]: "name_of (flexible_task e) = name_of e"
  by (simp add: name_of_def flexible_task_def Let_def)







lemmas run_defs = optimize_day_events_def classify_events_def fixed_copy_def flexible_task_def
  span_minutes_def whole_minutes_def find_conflicts_def check_time_overlap_def demoted_def
  schedule_day_def build_schedule_model_def schedule_date_of_def fixed_entry_def
  task_entry_def minutes_since_day_start_def add_minutes_to_day_start_def dict_of_def
  solve_schedule_def fixed_out_def task_out_def placed_event_def lookup_def
  reference_solver_def free_at_def empty_event_def




text \<open>
  Why the names must differ: the model and the result are keyed by name. Of two fixed
  events called stand-up, at 09:00 and at 14:00, the output holds the later one twice.
\<close>

lemma same_name_events_collapse:
  "optimize_day_events reference_solver
     [standup, standup\<lparr>ev_start := Some (monday + hm 14 0), ev_end := Some (monday + hm 15 0)\<rparr>,
      workshop 45] monday (hm 8 0) (hm 21 0)
   = Inr \<lparr>r_events =
       [(workshop 45)\<lparr>ev_start := Some (monday + hm 8 0), ev_end := Some (monday + hm 8 45)\<rparr>,
        standup\<lparr>ev_start := Some (monday + hm 14 0), ev_end := Some (monday + hm 15 0)\<rparr>,
        standup\<lparr>ev_start := Some (monday + hm 14 0), ev_end := Some (monday + hm 15 0)\<rparr>],
      r_error = None, r_conflicts = None\<rparr>"
  by (simp add: run_defs example_defs)

text \<open>
  Why the fixed events must lie on whole minutes: next to a task, a fixed event is
  written back from its minute offsets, and the seconds are lost.
\<close>

lemma seconds_are_dropped:
  "optimize_day_events reference_solver
     [standup\<lparr>ev_start := Some (monday + hm 9 0 + 30 * us_per_second),
              ev_end := Some (monday + hm 9 30 + 30 * us_per_second)\<rparr>,
      workshop 45] monday (hm 8 0) (hm 21 0)
   = Inr \<lparr>r_events =
       [(workshop 45)\<lparr>ev_start := Some (monday + hm 8 0), ev_end := Some (monday + hm 8 45)\<rparr>,
        standup],
      r_error = None, r_conflicts = None\<rparr>"
  by (simp add: run_defs example_defs)

end
